theory Spec2Isabelle
  imports Main "HOL-Library.AList"
begin

section \<open>The training driver \<^verbatim>\<open>src/train.py\<close>\<close>

text \<open>
  The script loads a rent data set, engineers features with a shared preprocessing
  pipeline, runs one tracked experiment run per hyper-parameter set, selects the run with
  the smallest mean cross-validated RMSE and saves its model for serving.

  Numeric cells and metric values are kept abstract: \<open>'c\<close> is the type of table cells,
  \<open>'r\<close> the (linearly ordered) type of metric values, \<open>'pp\<close> the learned state of the
  preprocessing pipeline and \<open>'f\<close> the fitted attributes of a regressor. The numeric
  routines of numpy and scikit-learn are the fields of an environment record; every one
  that can raise returns a sum. The calls to the file logger and the \<^verbatim>\<open>print\<close> of the
  model location only write text out and are left out; \<^verbatim>\<open>mlflow.set_experiment\<close> and
  \<^verbatim>\<open>set_tracking_uri\<close> fix which experiment the tracker calls address, here the run
  list \<open>mlruns\<close>.
\<close>

subsection \<open>Exceptions\<close>

datatype error =
    Exception string
  | KeyError string
  | AttributeError string
  | MlflowException string
  | DistutilsFileError string
  | LibraryError string

subsection \<open>Hyper-parameter grid\<close>

text \<open>A float literal is carried as its source text, an int literal as its value.\<close>

datatype pval = PInt int | PFloat string

text \<open>Python dictionaries keep insertion order: association lists with distinct keys.\<close>

type_synonym 'v grid = "(string \<times> 'v list) list"
type_synonym 'v param_dict = "(string \<times> 'v) list"

text \<open>
  Modelled from the spec: \<open>get_param_set\<close> is imported from
  \<^verbatim>\<open>src/common/utils.py\<close>, whose text is missing. The spec describes it as the full
  Cartesian expansion of the grid into parameter dictionaries, in lexicographic product
  order over the input key order: every combination of one candidate per key, zipped with
  the keys.
\<close>

definition get_param_set :: "'v grid \<Rightarrow> 'v param_dict list" where
  \<comment> \<open>Modelled from the spec: Cartesian product of the candidate lists, first key slowest.\<close>
  "get_param_set params =
     map (\<lambda>combination. zip (map fst params) combination) (product_lists (map snd params))"

text \<open>
  To speak about positions: the vectors that pick one position in each candidate list,
  and the dictionary such a vector selects.
\<close>

definition index_vectors :: "'v grid \<Rightarrow> nat list list" where
  "index_vectors params = product_lists (map (\<lambda>(k, vs). [0..<length vs]) params)"

definition assignment :: "'v grid \<Rightarrow> nat list \<Rightarrow> 'v param_dict" where
  "assignment params js = zip (map fst params) (map2 (\<lambda>(k, vs) j. vs ! j) params js)"

abbreviation lex_less :: "nat list \<Rightarrow> nat list \<Rightarrow> bool" where
  "lex_less js js' \<equiv> (js, js') \<in> lexord {(u, v). u < v}"

definition params_candidates :: "pval grid" where
  "params_candidates =
     [(''learning_rate'', [PFloat ''0.01'']),
      (''max_depth'', [PInt 3]),
      (''max_features'', [PFloat ''1.0''])]"

definition experiment_name :: string where
  "experiment_name = ''new_experiment''"

subsection \<open>Tables\<close>

text \<open>
  A pandas data frame: row labels and named columns. A series pairs each label with its
  value. \<open>assign\<close> aligns the series with the frame by label, fills labels the series
  lacks with NaN, and replaces the column in place or appends it.
\<close>

record 'c frame =
  index :: "nat list"
  columns :: "(string \<times> 'c list) list"

type_synonym 'c series = "(nat \<times> 'c) list"

record 'c csv_file =
  csv_rows :: nat
  csv_columns :: "(string \<times> 'c list) list"

definition drop_columns :: "string list \<Rightarrow> 'c frame \<Rightarrow> error + 'c frame" where
  "drop_columns labels df =
     (case filter (\<lambda>l. l \<notin> set (map fst (columns df))) labels of
        [] \<Rightarrow> Inr (df\<lparr>columns := filter (\<lambda>(k, vs). k \<notin> set labels) (columns df)\<rparr>)
      | l # _ \<Rightarrow> Inl (KeyError l))"

definition getitem :: "'c frame \<Rightarrow> string \<Rightarrow> error + 'c series" where
  "getitem df label =
     (case map_of (columns df) label of
        None \<Rightarrow> Inl (KeyError label)
      | Some vs \<Rightarrow> Inr (zip (index df) vs))"

definition assign :: "'c \<Rightarrow> 'c frame \<Rightarrow> string \<Rightarrow> 'c series \<Rightarrow> 'c frame" where
  "assign nan df label s =
     df\<lparr>columns :=
          AList.update label
            (map (\<lambda>i. case map_of s i of Some v \<Rightarrow> v | None \<Rightarrow> nan) (index df))
            (columns df)\<rparr>"

definition to_csv :: "'c frame \<Rightarrow> 'c csv_file" where
  \<comment> \<open>\<^verbatim>\<open>index=False\<close>: the row labels are not written.\<close>
  "to_csv df = \<lparr>csv_rows = length (index df), csv_columns = columns df\<rparr>"

subsection \<open>Estimators and the external numeric routines\<close>

text \<open>
  A regressor object: its constructor arguments and, once fitted, its fitted attributes.
  Objects live in a heap (a list, an address is a position) because the pipeline, the
  cross-validation and the loggers all receive the same regressor instance.
\<close>

record 'f estimator =
  hyper :: "pval param_dict"
  fitted :: "'f option"

type_synonym 'c dataset = "'c frame \<times> 'c series"

record ('c, 'pp, 'f, 'r) env =
  np_log1p :: "'c \<Rightarrow> 'c"
  np_nan :: "'c"
  np_mean :: "'r list \<Rightarrow> 'r"
  str_of :: "pval \<Rightarrow> string"
  pp_unfitted :: "'pp"
  pp_fit_transform :: "'pp \<Rightarrow> 'c frame \<Rightarrow> 'c series \<Rightarrow> error + ('pp \<times> 'c frame)"
  regr_init :: "pval param_dict \<Rightarrow> error + unit"
  regr_fit :: "pval param_dict \<Rightarrow> 'c frame \<Rightarrow> 'c series \<Rightarrow> error + 'f"
  train_score :: "'f \<Rightarrow> 'r list"
  cv_split :: "'c frame \<Rightarrow> 'c series \<Rightarrow> ('c dataset \<times> 'c dataset) list"
  fold_rmse :: "'f \<Rightarrow> 'c frame \<Rightarrow> 'c series \<Rightarrow> 'r"
  feature_importance_chart ::
    "'c frame \<Rightarrow> 'f estimator \<Rightarrow> (error + unit) \<times> string list \<times> string list"

text \<open>
  Modelled from the spec: \<open>rmse_cv_score\<close> is imported from
  \<^verbatim>\<open>src/common/metrics.py\<close>, whose text is missing. The spec describes k-fold
  cross-validation with a fixed fold count that fits a fresh clone of the estimator per
  fold, scores the clone on the held-out fold and returns the per-fold RMSE values. A clone
  is a new object with the same constructor arguments and no fitted attributes; how the
  rows are split into folds and how a fold is scored belong to the environment.
\<close>

fun cv_folds ::
  "('c, 'pp, 'f, 'r) env \<Rightarrow> 'f estimator \<Rightarrow> ('c dataset \<times> 'c dataset) list \<Rightarrow>
   'f estimator list \<Rightarrow> (error + 'r list) \<times> 'f estimator list" where
  "cv_folds E est [] h = (Inr [], h)"
| "cv_folds E est (((X_train, y_train), (X_test, y_test)) # folds) h =
     (let c = length h;
          h1 = h @ [est\<lparr>fitted := None\<rparr>]
      in case regr_fit E (hyper (h1 ! c)) X_train y_train of
           Inl e \<Rightarrow> (Inl e, h1)
         | Inr f \<Rightarrow>
             (let h2 = h1[c := (h1 ! c)\<lparr>fitted := Some f\<rparr>];
                  score = fold_rmse E f X_test y_test
              in case cv_folds E est folds h2 of
                   (Inl e, h3) \<Rightarrow> (Inl e, h3)
                 | (Inr scores, h3) \<Rightarrow> (Inr (score # scores), h3)))"

definition rmse_cv_score ::
  "('c, 'pp, 'f, 'r) env \<Rightarrow> nat \<Rightarrow> 'c frame \<Rightarrow> 'c series \<Rightarrow>
   'f estimator list \<Rightarrow> (error + 'r list) \<times> 'f estimator list" where
  \<comment> \<open>Modelled from the spec: cross-validation on clones of the estimator at address \<open>a\<close>.\<close>
  "rmse_cv_score E a X y h = cv_folds E (h ! a) (cv_split E X y) h"

subsection \<open>Experiment tracker and model store\<close>

datatype run_status = RUNNING | FINISHED | FAILED

text \<open>A pickled scikit-learn pipeline: the preprocessing state and the regressor.\<close>

type_synonym ('pp, 'f) sk_pipeline = "'pp \<times> 'f estimator"

text \<open>
  The artifact directory \<^verbatim>\<open>ARTIFACT_PATH\<close>: the copy of the best model that the export
  leaves there, and the chart files it has received.
\<close>

record ('pp, 'f) artifact_dir =
  dir_model :: "('pp, 'f) sk_pipeline option"
  dir_charts :: "string list"

record ('pp, 'f, 'r) run =
  run_id :: nat
  run_name :: string
  run_status :: run_status
  run_tags :: "(string \<times> string) list"
  run_params :: "(string \<times> string) list"
  run_metrics :: "(string \<times> 'r) list"
  run_model :: "('pp, 'f) sk_pipeline option"
  run_artifacts :: "('pp, 'f) artifact_dir list"
  run_charts :: "string list"

record bento_signature =
  batchable :: bool
  batch_dim :: nat

record ('pp, 'f) bento_entry =
  bento_name :: string
  bento_model :: "('pp, 'f) sk_pipeline"
  bento_signatures :: "(string \<times> bento_signature) list"
  bento_metadata :: "(string \<times> string) list"

text \<open>
  The calls that hand the data to the collaborators, in program order. Each is recorded by
  the step that makes the call, with the arguments it passes on.
\<close>

datatype 'c event =
    FitTransform "'c frame" "'c series"
  | PipelineFit nat "'c frame" "'c series"
  | RmseCvScore nat "'c frame" "'c series"
  | LogFeatureImportance nat "'c frame"

text \<open>
  The state the script works on. The first four fields belong to the process (the
  module-level pipeline instance, the object heap, mlflow's active run, the recorded
  calls); the last four persist on disk (the runs of the experiment, the feature file, the
  artifact directory, the serving model store).
\<close>

record ('c, 'pp, 'f, 'r) world =
  preprocess_pipeline :: "'pp"
  heap :: "'f estimator list"
  active_run :: "('pp, 'f, 'r) run option"
  calls :: "'c event list"
  mlruns :: "('pp, 'f, 'r) run list"
  features_csv :: "'c csv_file option"
  artifact_path :: "('pp, 'f) artifact_dir"
  model_store :: "('pp, 'f) bento_entry list"

text \<open>A statement either returns a value or raises; both leave a state behind.\<close>

type_synonym ('w, 'a) action = "'w \<Rightarrow> (error + 'a) \<times> 'w"

definition ok :: "'a \<Rightarrow> ('w, 'a) action" where
  "ok a w = (Inr a, w)"

definition then_do :: "('w, 'a) action \<Rightarrow> ('a \<Rightarrow> ('w, 'b) action) \<Rightarrow> ('w, 'b) action" where
  "then_do m k w = (case m w of (Inl e, w') \<Rightarrow> (Inl e, w') | (Inr a, w') \<Rightarrow> k a w')"

definition lift :: "error + 'a \<Rightarrow> ('w, 'a) action" where
  "lift r w = (r, w)"

definition modify :: "('w \<Rightarrow> 'w) \<Rightarrow> ('w, unit) action" where
  "modify f w = (Inr (), f w)"

fun str_nat :: "nat \<Rightarrow> string" where
  "str_nat n =
     (if n < 10 then [char_of (48 + n)]
      else str_nat (n div 10) @ [char_of (48 + n mod 10)])"

declare str_nat.simps [simp del]

definition latest_metric :: "string \<Rightarrow> ('pp, 'f, 'r) run \<Rightarrow> 'r option" where
  "latest_metric key r =
     (case filter (\<lambda>(k, v). k = key) (run_metrics r) of
        [] \<Rightarrow> None
      | kvs \<Rightarrow> Some (snd (last kvs)))"

text \<open>
  \<^verbatim>\<open>mlflow.search_runs(order_by=["metrics.RMSE_CV ASC"], max_results=1)\<close>: the runs of
  the experiment ordered by the metric, ascending; runs without the metric come last and
  ties keep the tracker's default order, most recently started first.
\<close>

definition search_runs ::
  "string \<Rightarrow> nat \<Rightarrow> ('pp, 'f, 'r :: linorder) run list \<Rightarrow> ('pp, 'f, 'r) run list" where
  "search_runs key max_results runs =
     (let recent_first = rev runs;
          with_metric = List.map_filter
             (\<lambda>r. map_option (\<lambda>v. (v, r)) (latest_metric key r)) recent_first;
          without_metric = filter (\<lambda>r. latest_metric key r = None) recent_first
      in take max_results (map snd (sort_key fst with_metric) @ without_metric))"

definition get_run :: "('pp, 'f, 'r) run list \<Rightarrow> nat \<Rightarrow> error + ('pp, 'f, 'r) run" where
  "get_run runs rid =
     (case find (\<lambda>r. run_id r = rid) runs of
        None \<Rightarrow> Inl (MlflowException ''Run not found'')
      | Some r \<Rightarrow> Inr r)"

definition fresh_id :: "('pp, 'f, 'r) run list \<Rightarrow> nat" where
  "fresh_id runs = Suc (Max (set (0 # map run_id runs)))"

text \<open>
  \<^verbatim>\<open>with mlflow.start_run(...)\<close>: the run is active inside the block and is closed as
  FINISHED when the block ends, as FAILED when an exception leaves it. Nothing inside the
  block reads the tracker, so the record joins \<open>mlruns\<close> when the block is left.
\<close>

definition start_run :: "string \<Rightarrow> ('c, 'pp, 'f, 'r) world \<Rightarrow> ('c, 'pp, 'f, 'r) world" where
  "start_run name w =
     w\<lparr>active_run := Some
         \<lparr>run_id = fresh_id (mlruns w), run_name = name, run_status = RUNNING,
          run_tags = [], run_params = [], run_metrics = [], run_model = None,
          run_artifacts = [], run_charts = []\<rparr>\<rparr>"

definition end_run :: "run_status \<Rightarrow> ('c, 'pp, 'f, 'r) world \<Rightarrow> ('c, 'pp, 'f, 'r) world" where
  "end_run st w =
     (case active_run w of
        None \<Rightarrow> w
      | Some r \<Rightarrow> w\<lparr>mlruns := mlruns w @ [r\<lparr>run_status := st\<rparr>], active_run := None\<rparr>)"

definition with_run ::
  "string \<Rightarrow> (('c, 'pp, 'f, 'r) world, 'a) action \<Rightarrow> (('c, 'pp, 'f, 'r) world, 'a) action" where
  "with_run name body w =
     (case body (start_run name w) of
        (Inl e, w') \<Rightarrow> (Inl e, end_run FAILED w')
      | (Inr a, w') \<Rightarrow> (Inr a, end_run FINISHED w'))"

definition on_active ::
  "(('pp, 'f, 'r) run \<Rightarrow> ('pp, 'f, 'r) run) \<Rightarrow> (('c, 'pp, 'f, 'r) world, unit) action" where
  "on_active f = modify (\<lambda>w. w\<lparr>active_run := map_option f (active_run w)\<rparr>)"

subsection \<open>One run of the grid search (lines 66 to 106)\<close>

definition new_regr :: "pval param_dict \<Rightarrow> (('c, 'pp, 'f, 'r) world, nat) action" where
  "new_regr params w =
     (Inr (length (heap w)), w\<lparr>heap := heap w @ [\<lparr>hyper = params, fitted = None\<rparr>]\<rparr>)"

text \<open>
  \<^verbatim>\<open>pipeline.fit(_X, y)\<close>: the pipeline holds the module-level preprocessing instance and
  the regressor themselves, not copies; fitting it fits both in place.
\<close>

definition pipeline_fit ::
  "('c, 'pp, 'f, 'r) env \<Rightarrow> nat \<Rightarrow> nat \<Rightarrow> 'c frame \<Rightarrow> 'c series \<Rightarrow>
   (('c, 'pp, 'f, 'r) world, unit) action" where
  "pipeline_fit E i regr X_raw y w =
     (let w0 = w\<lparr>calls := calls w @ [PipelineFit i X_raw y]\<rparr>
      in case pp_fit_transform E (preprocess_pipeline w0) X_raw y of
           Inl e \<Rightarrow> (Inl e, w0)
         | Inr (pp', Xt) \<Rightarrow>
             (let w1 = w0\<lparr>preprocess_pipeline := pp'\<rparr>
              in case regr_fit E (hyper (heap w1 ! regr)) Xt y of
                   Inl e \<Rightarrow> (Inl e, w1)
                 | Inr f \<Rightarrow>
                     (Inr (),
                      w1\<lparr>heap := (heap w1)[regr := (heap w1 ! regr)\<lparr>fitted := Some f\<rparr>]\<rparr>)))"

definition call_rmse_cv_score ::
  "('c, 'pp, 'f, 'r) env \<Rightarrow> nat \<Rightarrow> nat \<Rightarrow> 'c frame \<Rightarrow> 'c series \<Rightarrow>
   (('c, 'pp, 'f, 'r) world, 'r list) action" where
  "call_rmse_cv_score E i regr X y w =
     (case rmse_cv_score E regr X y (heap w) of
        (res, h') \<Rightarrow> (res, w\<lparr>calls := calls w @ [RmseCvScore i X y], heap := h'\<rparr>))"

text \<open>\<^verbatim>\<open>{key: regr.get_params()[key] for key in params}\<close>\<close>

fun regr_params_for :: "pval param_dict \<Rightarrow> string list \<Rightarrow> error + pval param_dict" where
  "regr_params_for get_params [] = Inr []"
| "regr_params_for get_params (key # keys) =
     (case map_of get_params key of
        None \<Rightarrow> Inl (KeyError key)
      | Some v \<Rightarrow>
          (case regr_params_for get_params keys of
             Inl e \<Rightarrow> Inl e
           | Inr kvs \<Rightarrow> Inr ((key, v) # kvs)))"

text \<open>The tracker stores every parameter value as its string.\<close>

definition log_params ::
  "('c, 'pp, 'f, 'r) env \<Rightarrow> pval param_dict \<Rightarrow> (('c, 'pp, 'f, 'r) world, unit) action" where
  "log_params E kvs =
     on_active (\<lambda>r. r\<lparr>run_params := run_params r @ map (\<lambda>(k, v). (k, str_of E v)) kvs\<rparr>)"

definition log_metrics :: "(string \<times> 'r) list \<Rightarrow> (('c, 'pp, 'f, 'r) world, unit) action" where
  "log_metrics kvs = on_active (\<lambda>r. r\<lparr>run_metrics := run_metrics r @ kvs\<rparr>)"

definition log_train_loss ::
  "('c, 'pp, 'f, 'r) env \<Rightarrow> nat \<Rightarrow> (('c, 'pp, 'f, 'r) world, unit) action" where
  "log_train_loss E regr w =
     (case fitted (heap w ! regr) of
        None \<Rightarrow> (Inl (AttributeError ''train_score_''), w)
      | Some f \<Rightarrow> log_metrics (map (\<lambda>s. (''Train Loss'', s)) (train_score E f)) w)"

definition log_model :: "nat \<Rightarrow> (('c, 'pp, 'f, 'r) world, unit) action" where
  "log_model regr w =
     on_active (\<lambda>r. r\<lparr>run_model := Some (preprocess_pipeline w, heap w ! regr)\<rparr>) w"

definition log_artifact :: "(('c, 'pp, 'f, 'r) world, unit) action" where
  "log_artifact w = on_active (\<lambda>r. r\<lparr>run_artifacts := run_artifacts r @ [artifact_path w]\<rparr>) w"

text \<open>
  Modelled from the spec: \<open>log_feature_importance\<close> is imported from
  \<^verbatim>\<open>src/common/logger.py\<close>, whose text is missing. The spec says it takes the feature
  matrix and a fitted estimator, renders a chart of the feature importances and persists
  it as a tracked artifact, with no return value, and that the artifact directory receives
  copies of charts. What the call writes is the environment's: its outcome, the chart files
  that have reached the artifact directory and those that have reached the active run,
  also when it raises part-way.
\<close>

definition log_feature_importance ::
  "('c, 'pp, 'f, 'r) env \<Rightarrow> nat \<Rightarrow> 'c frame \<Rightarrow> nat \<Rightarrow> (('c, 'pp, 'f, 'r) world, unit) action" where
  \<comment> \<open>Modelled from the spec: a chart of the importances, persisted as a tracked artifact.\<close>
  "log_feature_importance E i X regr w =
     (case feature_importance_chart E X (heap w ! regr) of
        (res, saved, logged) \<Rightarrow>
          (res,
           w\<lparr>calls := calls w @ [LogFeatureImportance i X],
             artifact_path := (artifact_path w)\<lparr>dir_charts := dir_charts (artifact_path w) @ saved\<rparr>,
             active_run :=
               map_option (\<lambda>r. r\<lparr>run_charts := run_charts r @ logged\<rparr>) (active_run w)\<rparr>))"

text \<open>Lines 66 to 103: fit, evaluate and log everything but the chart.\<close>

definition fit_evaluate_log ::
  "('c, 'pp, 'f, 'r) env \<Rightarrow> 'c frame \<Rightarrow> 'c frame \<Rightarrow> 'c series \<Rightarrow> nat \<Rightarrow> pval param_dict \<Rightarrow>
   (('c, 'pp, 'f, 'r) world, nat) action" where
  "fit_evaluate_log E X X_raw y i params =
     then_do (lift (regr_init E params)) (\<lambda>_.
     then_do (new_regr params) (\<lambda>regr.
     then_do (pipeline_fit E i regr X_raw y) (\<lambda>_.
     then_do (call_rmse_cv_score E i regr X y) (\<lambda>score_cv.
     then_do (on_active (\<lambda>r. r\<lparr>run_tags := run_tags r @
                [(''estimator_name'', ''GradientBoostingRegressor'')]\<rparr>)) (\<lambda>_.
     then_do (\<lambda>w. lift (regr_params_for (hyper (heap w ! regr)) (map fst params)) w) (\<lambda>kvs.
     then_do (log_params E kvs) (\<lambda>_.
     then_do (log_metrics [(''RMSE_CV'', np_mean E score_cv)]) (\<lambda>_.
     then_do (log_train_loss E regr) (\<lambda>_.
     then_do (log_model regr) (\<lambda>_.
     then_do log_artifact (\<lambda>_.
     ok regr)))))))))))"

definition run_body ::
  "('c, 'pp, 'f, 'r) env \<Rightarrow> 'c frame \<Rightarrow> 'c frame \<Rightarrow> 'c series \<Rightarrow> nat \<Rightarrow> pval param_dict \<Rightarrow>
   (('c, 'pp, 'f, 'r) world, unit) action" where
  "run_body E X X_raw y i params =
     then_do (fit_evaluate_log E X X_raw y i params) (\<lambda>regr.
     log_feature_importance E i X regr)"

subsection \<open>The script\<close>

fun grid_search ::
  "('c, 'pp, 'f, 'r) env \<Rightarrow> 'c frame \<Rightarrow> 'c frame \<Rightarrow> 'c series \<Rightarrow> nat \<Rightarrow> pval param_dict list \<Rightarrow>
   (('c, 'pp, 'f, 'r) world, unit) action" where
  "grid_search E X X_raw y i [] w = ok () w"
| "grid_search E X X_raw y i (params # param_set) w =
     then_do (with_run (''Run '' @ str_nat i) (run_body E X X_raw y i params))
       (\<lambda>_. grid_search E X X_raw y (Suc i) param_set) w"

text \<open>Line 35: the standalone fit of the module-level preprocessing instance.\<close>

definition fit_transform ::
  "('c, 'pp, 'f, 'r) env \<Rightarrow> 'c frame \<Rightarrow> 'c series \<Rightarrow> (('c, 'pp, 'f, 'r) world, 'c frame) action" where
  "fit_transform E X_raw y w =
     (let w0 = w\<lparr>calls := calls w @ [FitTransform X_raw y]\<rparr>
      in case pp_fit_transform E (preprocess_pipeline w0) X_raw y of
           Inl e \<Rightarrow> (Inl e, w0)
         | Inr (pp', X) \<Rightarrow> (Inr X, w0\<lparr>preprocess_pipeline := pp'\<rparr>))"

definition feature_engineering ::
  "('c, 'pp, 'f, 'r) env \<Rightarrow> 'c frame \<Rightarrow>
   (('c, 'pp, 'f, 'r) world, 'c frame \<times> 'c series \<times> 'c frame) action" where
  "feature_engineering E train_df =
     then_do (lift (drop_columns [''rent'', ''area_locality'', ''posted_on''] train_df)) (\<lambda>X_raw.
     then_do (lift (getitem train_df ''rent'')) (\<lambda>rent.
       let y = map (\<lambda>(i, v). (i, np_log1p E v)) rent in
     then_do (fit_transform E X_raw y) (\<lambda>X.
     ok (X_raw, y, X))))"

text \<open>Lines 38 to 43; creating the storage directory when it is absent has no other effect.\<close>

definition persist_features ::
  "('c, 'pp, 'f, 'r) env \<Rightarrow> 'c frame \<Rightarrow> 'c series \<Rightarrow> (('c, 'pp, 'f, 'r) world, unit) action" where
  "persist_features E X y =
     modify (\<lambda>w. w\<lparr>features_csv := Some (to_csv (assign (np_nan E) X ''rent'' y))\<rparr>)"

definition no_runs_message :: string where
  "no_runs_message = ''Found no runs for experiment '' @ [CHR 0x27] @ experiment_name @ [CHR 0x27]"

definition select_best ::
  "(('c, 'pp, 'f, 'r :: linorder) world, ('pp, 'f, 'r) run) action" where
  "select_best w =
     (case search_runs ''RMSE_CV'' 1 (mlruns w) of
        [] \<Rightarrow> (Inl (Exception no_runs_message), w)
      | r # _ \<Rightarrow> (get_run (mlruns w) (run_id r), w))"

text \<open>
  Lines 116 to 130: the best run's model directory is copied into the artifact directory
  (which fails when the run logged no model), loaded, and saved to the model store.
\<close>

definition export :: "('pp, 'f, 'r) run \<Rightarrow> (('c, 'pp, 'f, 'r) world, unit) action" where
  "export best_run w =
     (let best_params = run_params best_run
      in case run_model best_run of
           None \<Rightarrow> (Inl (DistutilsFileError ''model''), w)
         | Some m \<Rightarrow>
             (Inr (), w\<lparr>artifact_path := (artifact_path w)\<lparr>dir_model := Some m\<rparr>,
                       model_store := model_store w @
                         [\<lparr>bento_name = ''house_rent'', bento_model = m,
                           bento_signatures = [(''predict'', \<lparr>batchable = True, batch_dim = 0\<rparr>)],
                           bento_metadata = best_params\<rparr>]\<rparr>))"

text \<open>A new process: what lives in memory starts afresh, what is on disk is found as left.\<close>

definition fresh_process ::
  "('c, 'pp, 'f, 'r) env \<Rightarrow> ('c, 'pp, 'f, 'r) world \<Rightarrow> ('c, 'pp, 'f, 'r) world" where
  "fresh_process E w =
     w\<lparr>preprocess_pipeline := pp_unfitted E, heap := [], active_run := None, calls := []\<rparr>"

text \<open>Lines 30 to 106, for any grid: load, engineer, persist, then one run per set.\<close>

definition train_phase ::
  "('c, 'pp, 'f, 'r) env \<Rightarrow> pval grid \<Rightarrow> 'c frame \<Rightarrow> (('c, 'pp, 'f, 'r) world, unit) action" where
  "train_phase E grid train_df =
     then_do (feature_engineering E train_df) (\<lambda>(X_raw, y, X).
     then_do (persist_features E X y) (\<lambda>_.
     grid_search E X X_raw y 0 (get_param_set grid)))"

definition driver ::
  "('c, 'pp, 'f, 'r :: linorder) env \<Rightarrow> pval grid \<Rightarrow> 'c frame \<Rightarrow>
   (('c, 'pp, 'f, 'r) world, unit) action" where
  "driver E grid train_df w =
     then_do (train_phase E grid train_df) (\<lambda>_.
     then_do select_best (\<lambda>best_run.
     export best_run)) (fresh_process E w)"

definition main ::
  "('c, 'pp, 'f, 'r :: linorder) env \<Rightarrow> 'c frame \<Rightarrow> (('c, 'pp, 'f, 'r) world, unit) action" where
  "main E = driver E params_candidates"

text \<open>
  Modelled from the spec: \<open>handle_exception\<close>, installed as \<^verbatim>\<open>sys.excepthook\<close>, is
  imported from \<^verbatim>\<open>src/common/logger.py\<close>, whose text is missing. The spec says it logs
  any uncaught exception before the process exits with failure.
\<close>

definition exit_code :: "(error + 'a) \<times> 'w \<Rightarrow> nat" where
  \<comment> \<open>Modelled from the spec: an uncaught exception ends the process with a non-zero code.\<close>
  "exit_code outcome = (case fst outcome of Inl e \<Rightarrow> 1 | Inr a \<Rightarrow> 0)"


subsection \<open>Notions used to state the properties\<close>

text \<open>The state of the shared preprocessing instance after it has been fitted once more.\<close>

definition refit :: "('c, 'pp, 'f, 'r) env \<Rightarrow> 'c frame \<Rightarrow> 'c series \<Rightarrow> 'pp \<Rightarrow> 'pp" where
  "refit E X_raw y pp =
     (case pp_fit_transform E pp X_raw y of Inl e \<Rightarrow> pp | Inr (pp', Xt) \<Rightarrow> pp')"

text \<open>The calls one complete run makes, and the target vector a call receives.\<close>

definition run_events :: "'c frame \<Rightarrow> 'c frame \<Rightarrow> 'c series \<Rightarrow> nat \<Rightarrow> 'c event list" where
  "run_events X X_raw y i = [PipelineFit i X_raw y, RmseCvScore i X y, LogFeatureImportance i X]"

fun event_target :: "'c event \<Rightarrow> 'c series option" where
  "event_target (FitTransform X_raw y) = Some y"
| "event_target (PipelineFit i X_raw y) = Some y"
| "event_target (RmseCvScore i X y) = Some y"
| "event_target (LogFeatureImportance i X) = None"

text \<open>
  What one finished run has tracked, for the parameter set \<open>params\<close>, the feature matrix
  \<open>X\<close>, the raw features \<open>X_raw\<close> and the state \<open>pp\<close> in which the run found the shared
  preprocessing instance: the pipeline fit has fitted that instance on the raw features
  and the regressor on what it returned; the logged \<open>RMSE_CV\<close> is the mean of what
  \<open>rmse_cv_score\<close> returns for that regressor on \<open>X\<close>; the logged model is the fitted
  pipeline; the logged charts are those the chart logger produced from \<open>X\<close>.
\<close>

definition evaluated_run ::
  "('c, 'pp, 'f, 'r) env \<Rightarrow> 'c frame \<Rightarrow> 'c frame \<Rightarrow> 'c series \<Rightarrow> 'pp \<Rightarrow> pval param_dict \<Rightarrow>
   ('pp, 'f, 'r) run \<Rightarrow> bool" where
  "evaluated_run E X X_raw y pp params run \<longleftrightarrow>
     (\<exists>pp' Xt f h scores h' saved logged.
        pp_fit_transform E pp X_raw y = Inr (pp', Xt) \<and>
        regr_fit E params Xt y = Inr f \<and>
        rmse_cv_score E (length h) X y (h @ [\<lparr>hyper = params, fitted = Some f\<rparr>])
          = (Inr scores, h') \<and>
        feature_importance_chart E X \<lparr>hyper = params, fitted = Some f\<rparr>
          = (Inr (), saved, logged) \<and>
        latest_metric ''RMSE_CV'' run = Some (np_mean E scores) \<and>
        run_model run = Some (pp', \<lparr>hyper = params, fitted = Some f\<rparr>) \<and>
        run_charts run = logged)"


subsection \<open>A small concrete instance\<close>

text \<open>
  Integer cells and metrics, a preprocessing state that counts how often it was fitted,
  and a regressor whose fitted attribute is the number of training rows.
\<close>

definition toy_env :: "(int, nat, nat, int) env" where
  "toy_env =
     \<lparr>np_log1p = (\<lambda>v. v + 1), np_nan = - 1, np_mean = sum_list,
      str_of = (\<lambda>v. case v of PInt i \<Rightarrow> str_nat (nat i) | PFloat s \<Rightarrow> s),
      pp_unfitted = 0,
      pp_fit_transform = (\<lambda>pp X y. Inr (Suc pp, X)),
      regr_init = (\<lambda>p. Inr ()),
      regr_fit = (\<lambda>p X y. Inr (length (index X))),
      train_score = (\<lambda>f. [2, 1]),
      cv_split = (\<lambda>X y. [((X, y), (X, y))]),
      fold_rmse = (\<lambda>f X y. 7),
      feature_importance_chart =
        (\<lambda>X m. (Inr (), [''feature_importance.png''], [''feature_importance.png'']))\<rparr>"

definition toy_df :: "int frame" where
  "toy_df =
     \<lparr>index = [0, 1],
      columns = [(''bhk'', [2, 3]), (''rent'', [10, 20]),
                 (''area_locality'', [0, 0]), (''posted_on'', [0, 0])]\<rparr>"

definition toy_X :: "int frame" where
  "toy_X = \<lparr>index = [0, 1], columns = [(''bhk'', [2, 3])]\<rparr>"

definition toy_y :: "int series" where
  "toy_y = [(0, 11), (1, 21)]"

definition empty_world :: "(int, nat, nat, int) world" where
  "empty_world =
     \<lparr>preprocess_pipeline = 0, heap = [], active_run = None, calls = [],
      mlruns = [], features_csv = None,
      artifact_path = \<lparr>dir_model = None, dir_charts = []\<rparr>, model_store = []\<rparr>"

definition tracked_run :: "nat \<Rightarrow> int \<Rightarrow> (nat, nat, int) run" where
  "tracked_run rid rmse =
     \<lparr>run_id = rid, run_name = ''Run 0'', run_status = FINISHED, run_tags = [],
      run_params = [], run_metrics = [(''RMSE_CV'', rmse)], run_model = None,
      run_artifacts = [], run_charts = []\<rparr>"

definition three_runs :: "(int, nat, nat, int) world" where
  "three_runs = empty_world\<lparr>mlruns := [tracked_run 1 5, tracked_run 2 2, tracked_run 3 3]\<rparr>"

definition chart_fails_env :: "(int, nat, nat, int) env" where
  "chart_fails_env =
     toy_env\<lparr>feature_importance_chart := (\<lambda>X m. (Inl (LibraryError ''chart''), [], []))\<rparr>"

definition two_depths :: "pval grid" where
  "two_depths = [(''max_depth'', [PInt 3, PInt 4])]"

text \<open>
  A chart logger that raises for the regressor of depth 4, after the chart file has
  reached the artifact directory; and a grid of three depths.
\<close>

definition chart_fails_at_4_env :: "(int, nat, nat, int) env" where
  "chart_fails_at_4_env =
     toy_env\<lparr>feature_importance_chart :=
       (\<lambda>X m. if map_of (hyper m) ''max_depth'' = Some (PInt 4)
               then (Inl (LibraryError ''chart''), [''feature_importance.png''], [])
               else (Inr (), [''feature_importance.png''], [''feature_importance.png'']))\<rparr>"

definition three_depths :: "pval grid" where
  "three_depths = [(''max_depth'', [PInt 3, PInt 4, PInt 5])]"

text \<open>
  A preprocessing pipeline that adds a column, so that the engineered features differ from
  the raw ones; the regressor remembers how many feature columns it was fitted on, a fold
  is scored by the number of columns it is given, and the chart names the columns.
\<close>

definition widening_env :: "(int, nat, nat, int) env" where
  "widening_env =
     toy_env\<lparr>pp_fit_transform :=
         (\<lambda>pp X y. Inr (Suc pp, X\<lparr>columns := columns X @ [(''bias'', map (\<lambda>i. 1) (index X))]\<rparr>)),
       regr_fit := (\<lambda>p X y. Inr (length (columns X))),
       fold_rmse := (\<lambda>f X y. int (length (columns X))),
       feature_importance_chart := (\<lambda>X m. (Inr (), [''chart''], map fst (columns X)))\<rparr>"

definition toy_X_wide :: "int frame" where
  "toy_X_wide = \<lparr>index = [0, 1], columns = [(''bhk'', [2, 3]), (''bias'', [1, 1])]\<rparr>"

section \<open>The parameter-set expander\<close>

lemma length_product_lists_prod:
  "length (product_lists xss) = prod_list (map length xss)"
  by (induction xss) (simp_all add: length_concat o_def sum_list_triv)

lemma product_lists_nth:
  "product_lists xss =
     map (\<lambda>js. map2 (\<lambda>xs j. xs ! j) xss js) (product_lists (map (\<lambda>xs. [0..<length xs]) xss))"
proof (induction xss)
  case Nil
  show ?case by simp
next
  case (Cons xs xss)
  let ?P = "product_lists (map (\<lambda>xs. [0..<length xs]) xss)"
  have "map (\<lambda>js. map2 (\<lambda>xs j. xs ! j) (xs # xss) js)
          (product_lists (map (\<lambda>xs. [0..<length xs]) (xs # xss)))
      = concat (map (\<lambda>j. map (Cons (xs ! j)) (map (\<lambda>js. map2 (\<lambda>xs j. xs ! j) xss js) ?P))
          [0..<length xs])"
    by (simp add: map_concat o_def)
  also have "\<dots> = concat (map (\<lambda>j. map (Cons (xs ! j)) (product_lists xss)) [0..<length xs])"
    using Cons.IH by simp
  also have "\<dots> = concat (map (\<lambda>x. map (Cons x) (product_lists xss)) (map (\<lambda>j. xs ! j) [0..<length xs]))"
    by (simp add: o_def)
  also have "\<dots> = product_lists (xs # xss)"
    by (simp add: map_nth)
  finally show ?case by simp
qed

lemma sorted_wrt_cons_blocks:
  assumes "sorted_wrt (<) (xs :: nat list)" and "sorted_wrt lex_less P"
  shows "sorted_wrt lex_less (concat (map (\<lambda>x. map (Cons x) P) xs))"
  using assms(1)
proof (induction xs)
  case Nil
  show ?case by simp
next
  case (Cons x xs)
  have blk: "sorted_wrt lex_less (map (Cons x) P)"
    using assms(2) by (simp add: sorted_wrt_map)
  have rest: "sorted_wrt lex_less (concat (map (\<lambda>x. map (Cons x) P) xs))"
    using Cons by simp
  have cross: "\<forall>a \<in> set (map (Cons x) P).
                 \<forall>b \<in> set (concat (map (\<lambda>x. map (Cons x) P) xs)). lex_less a b"
    using Cons.prems by auto
  show ?case using blk rest cross by (simp add: sorted_wrt_append)
qed

lemma sorted_product_lists:
  "\<forall>xs \<in> set xss. sorted_wrt (<) xs \<Longrightarrow> sorted_wrt lex_less (product_lists xss)"
  by (induction xss) (simp_all add: sorted_wrt_cons_blocks)

lemma sorted_wrt_irrefl_distinct:
  "sorted_wrt R xs \<Longrightarrow> (\<And>x. \<not> R x x) \<Longrightarrow> distinct xs"
  by (induction xs) auto

lemma distinct_cons_blocks:
  assumes "distinct xs" and "distinct P"
  shows "distinct (concat (map (\<lambda>x. map (Cons x) P) xs))"
  using assms(1)
proof (induction xs)
  case Nil
  show ?case by simp
next
  case (Cons x xs)
  then show ?case using assms(2) by (auto simp: distinct_map inj_on_def)
qed

lemma distinct_product_lists:
  "\<forall>xs \<in> set xss. distinct xs \<Longrightarrow> distinct (product_lists xss)"
  by (induction xss) (simp_all add: distinct_cons_blocks)

lemma length_in_product_lists:
  "as \<in> set (product_lists xss) \<Longrightarrow> length as = length xss"
  by (simp add: product_lists_set list_all2_lengthD)

lemma inj_on_zip_keys:
  "inj_on (zip (ks :: 'a list)) {as :: 'b list. length as = length ks}"
proof (rule inj_onI)
  fix as bs :: "'b list"
  assume "as \<in> {as. length as = length ks}" "bs \<in> {as. length as = length ks}"
    and eq: "zip ks as = zip ks bs"
  then have "length as = length ks" "length bs = length ks" by simp_all
  then have "map snd (zip ks as) = as" "map snd (zip ks bs) = bs" by simp_all
  with eq show "as = bs" by metis
qed

lemma get_param_set_length:
  "length (get_param_set params) = prod_list (map (\<lambda>(k, vs). length vs) params)"
  by (simp add: get_param_set_def length_product_lists_prod o_def case_prod_unfold)

lemma get_param_set_assignment:
  "get_param_set params = map (assignment params) (index_vectors params)"
proof -
  have a: "map (\<lambda>(k, vs). [0..<length vs]) params = map (\<lambda>xs. [0..<length xs]) (map snd params)"
    by (simp add: o_def case_prod_unfold)
  have b: "\<And>js. map2 (\<lambda>(k, vs) j. vs ! j) params js = map2 (\<lambda>xs j. xs ! j) (map snd params) js"
    by (simp add: zip_map1 case_prod_unfold)
  show ?thesis
    unfolding get_param_set_def index_vectors_def assignment_def a b
    by (subst product_lists_nth) (simp add: o_def)
qed

lemma index_vectors_set:
  "set (index_vectors params) =
     {js. length js = length params \<and> (\<forall>p < length params. js ! p < length (snd (params ! p)))}"
  by (auto simp: index_vectors_def product_lists_set list_all2_conv_all_nth case_prod_unfold)

lemma index_vectors_sorted: "sorted_wrt lex_less (index_vectors params)"
  unfolding index_vectors_def
  by (rule sorted_product_lists) (auto simp: case_prod_unfold)

lemma index_vectors_distinct: "distinct (index_vectors params)"
  using index_vectors_sorted
  by (rule sorted_wrt_irrefl_distinct) (simp add: lexord_irreflexive)

lemma get_param_set_distinct:
  assumes "\<forall>(k, vs) \<in> set params. distinct vs"
  shows "distinct (get_param_set params)"
proof -
  have d: "distinct (product_lists (map snd params))"
    using assms by (intro distinct_product_lists) auto
  have "set (product_lists (map snd params)) \<subseteq> {as. length as = length (map fst params)}"
    by (auto dest: length_in_product_lists)
  then have "inj_on (zip (map fst params)) (set (product_lists (map snd params)))"
    by (rule inj_on_subset [OF inj_on_zip_keys])
  with d show ?thesis by (simp add: get_param_set_def distinct_map)
qed

lemma get_param_set_member:
  "d \<in> set (get_param_set params) \<longleftrightarrow>
     map fst d = map fst params \<and> (\<forall>p < length params. snd (d ! p) \<in> set (snd (params ! p)))"
  (is "?L \<longleftrightarrow> ?R")
proof
  assume ?L
  then obtain as where as: "as \<in> set (product_lists (map snd params))"
    and d: "d = zip (map fst params) as"
    by (auto simp: get_param_set_def)
  have len: "length as = length params" using as by (auto dest: length_in_product_lists)
  from as have "list_all2 (\<lambda>x ys. x \<in> set ys) as (map snd params)"
    by (simp add: product_lists_set)
  then have "\<forall>p < length params. as ! p \<in> set (snd (params ! p))"
    by (auto simp: list_all2_conv_all_nth)
  with len d show ?R by simp
next
  assume r: ?R
  then have len: "length d = length params" by (metis length_map)
  have "map snd d \<in> set (product_lists (map snd params))"
    using r len by (auto simp: product_lists_set list_all2_conv_all_nth)
  moreover have "zip (map fst params) (map snd d) = d"
    using r by (metis zip_map_fst_snd)
  ultimately show ?L by (force simp: get_param_set_def)
qed

lemma get_param_set_empty_candidates:
  assumes "(k, []) \<in> set params"
  shows "get_param_set params = []"
proof -
  from assms have "0 \<in> set (map (\<lambda>(k, vs). length vs) params)" by force
  then have "prod_list (map (\<lambda>(k, vs). length vs) params) = 0"
    by (simp add: prod_list_zero_iff)
  then show ?thesis using get_param_set_length [of params] by simp
qed

lemma get_param_set_nonempty:
  assumes "\<forall>(k, vs) \<in> set params. vs \<noteq> []"
  shows "get_param_set params \<noteq> []"
proof -
  from assms have "0 \<notin> set (map (\<lambda>(k, vs). length vs) params)" by force
  then have "prod_list (map (\<lambda>(k, vs). length vs) params) \<noteq> 0"
    by (simp add: prod_list_zero_iff)
  then show ?thesis using get_param_set_length [of params] by auto
qed

lemma get_param_set_keys:
  "d \<in> set (get_param_set params) \<Longrightarrow> map fst d = map fst params"
  by (simp add: get_param_set_member)


text \<open>
  C3: for a grid whose candidate lists are all non-empty, \<open>get_param_set\<close> returns a
  non-empty sequence whose length is the product of the candidate-list lengths; its
  members are exactly the dictionaries that give every key, in the input key order, one of
  that key's candidates; the sequence lists the dictionaries selected by the position
  vectors, every position vector exactly once and in lexicographic order with the first
  key most significant; when no candidate list repeats a value, no dictionary is repeated.
\<close>

theorem get_param_set_cartesian:
  assumes "distinct (map fst params)" and "\<forall>(k, vs) \<in> set params. vs \<noteq> []"
  shows "get_param_set params \<noteq> [] \<and>
         length (get_param_set params) = prod_list (map (\<lambda>(k, vs). length vs) params) \<and>
         (\<forall>d. d \<in> set (get_param_set params) \<longleftrightarrow>
               map fst d = map fst params \<and>
               (\<forall>p < length params. snd (d ! p) \<in> set (snd (params ! p)))) \<and>
         (\<forall>d \<in> set (get_param_set params). distinct (map fst d)) \<and>
         get_param_set params = map (assignment params) (index_vectors params) \<and>
         distinct (index_vectors params) \<and>
         set (index_vectors params) =
           {js. length js = length params \<and>
                (\<forall>p < length params. js ! p < length (snd (params ! p)))} \<and>
         sorted_wrt lex_less (index_vectors params) \<and>
         ((\<forall>(k, vs) \<in> set params. distinct vs) \<longrightarrow> distinct (get_param_set params))"
proof -
  have keys: "\<forall>d \<in> set (get_param_set params). distinct (map fst d)"
    using assms(1) by (simp add: get_param_set_keys)
  show ?thesis
    using get_param_set_nonempty [OF assms(2)] get_param_set_length [of params]
      get_param_set_member [of _ params] keys get_param_set_assignment [of params]
      index_vectors_distinct [of params] index_vectors_set [of params]
      index_vectors_sorted [of params] get_param_set_distinct [of params]
    by blast
qed

theorem get_param_set_cartesian_witness:
  "distinct (map fst [(''a'', [1, 2 :: int]), (''b'', [3])]) \<and>
   get_param_set [(''a'', [1, 2 :: int]), (''b'', [3])] =
     [[(''a'', 1), (''b'', 3)], [(''a'', 2), (''b'', 3)]] \<and>
   length (get_param_set [(''a'', [1, 2 :: int]), (''b'', [3])]) = 2 \<and>
   index_vectors [(''a'', [1, 2 :: int]), (''b'', [3])] = [[0, 0], [1, 0]] \<and>
   sorted_wrt lex_less (index_vectors [(''a'', [1, 2 :: int]), (''b'', [3])])"
proof -
  have h1: "distinct (map fst [(''a'', [1, 2 :: int]), (''b'', [3])])" by simp
  have h2: "\<forall>(k, vs) \<in> set [(''a'', [1, 2 :: int]), (''b'', [3])]. vs \<noteq> []" by simp
  have v: "get_param_set [(''a'', [1, 2 :: int]), (''b'', [3])] =
     [[(''a'', 1), (''b'', 3)], [(''a'', 2), (''b'', 3)]]"
    by (simp add: get_param_set_def)
  have i: "index_vectors [(''a'', [1, 2 :: int]), (''b'', [3])] = [[0, 0], [1, 0]]"
    by (simp add: index_vectors_def upt_rec)
  show ?thesis
    using h1 h2 v i get_param_set_cartesian [OF h1 h2] by simp
qed

text \<open>
  C4: when some key of the grid has an empty candidate list, \<open>get_param_set\<close> returns
  the empty sequence, and the grid-search loop over it runs no iteration: it returns at
  once and leaves the state as it was.
\<close>

theorem get_param_set_empty_list:
  assumes "(k, []) \<in> set params"
  shows "get_param_set params = [] \<and>
         grid_search E X X_raw y i (get_param_set params) w = (Inr (), w)"
  using get_param_set_empty_candidates [OF assms] by (simp add: ok_def)

theorem get_param_set_empty_list_witness:
  "(''max_depth'', []) \<in> set [(''learning_rate'', [PFloat ''0.01'']), (''max_depth'', [])] \<and>
   get_param_set [(''learning_rate'', [PFloat ''0.01'']), (''max_depth'', [])] = [] \<and>
   grid_search toy_env toy_X toy_X toy_y 0
     (get_param_set [(''learning_rate'', [PFloat ''0.01'']), (''max_depth'', [])]) empty_world
     = (Inr (), empty_world)"
proof -
  have h: "(''max_depth'', []) \<in> set [(''learning_rate'', [PFloat ''0.01'']), (''max_depth'', [])]"
    by simp
  show ?thesis
    using h get_param_set_empty_list [OF h, of toy_env toy_X toy_X toy_y 0 empty_world]
    by (simp add: ok_def)
qed

section \<open>The driver: effects of one run and of the loop\<close>



lemma then_do_Inr:
  "then_do m k w = (Inr b, w') \<longleftrightarrow> (\<exists>a w1. m w = (Inr a, w1) \<and> k a w1 = (Inr b, w'))"
  by (auto simp: then_do_def split: prod.splits sum.splits)

lemma then_do_Inl:
  "then_do m k w = (Inl e, w') \<longleftrightarrow>
     m w = (Inl e, w') \<or> (\<exists>a w1. m w = (Inr a, w1) \<and> k a w1 = (Inl e, w'))"
  by (auto simp: then_do_def split: prod.splits sum.splits)

lemma cv_folds_frame:
  "cv_folds E est folds h = (res, h') \<Longrightarrow> length h \<le> length h' \<and> take (length h) h' = h"
proof (induction E est folds h arbitrary: res h' rule: cv_folds.induct)
  case (1 E est h)
  then show ?case by simp
next
  case (2 E est X_train y_train X_test y_test folds h)
  let ?h1 = "h @ [est\<lparr>fitted := None\<rparr>]"
  show ?case
  proof (cases "regr_fit E (hyper (?h1 ! length h)) X_train y_train")
    case (Inl e)
    with 2(2) show ?thesis by (auto simp: Let_def)
  next
    case (Inr f)
    let ?h2 = "?h1[length h := (?h1 ! length h)\<lparr>fitted := Some f\<rparr>]"
    obtain r3 h3 where r3: "cv_folds E est folds ?h2 = (r3, h3)" by (cases "cv_folds E est folds ?h2")
    have ih: "length ?h2 \<le> length h3 \<and> take (length ?h2) h3 = ?h2"
      using 2(1) [OF refl refl Inr refl refl r3] .
    have h': "h' = h3" using 2(2) Inr r3 by (auto simp: Let_def split: sum.splits)
    have "take (length h) h3 = take (length h) (take (length ?h2) h3)" by (simp add: min_def)
    also have "\<dots> = take (length h) ?h2" using ih by simp
    also have "\<dots> = h" by simp
    finally show ?thesis using ih h' by simp
  qed
qed

lemma rmse_cv_score_frame:
  assumes "rmse_cv_score E a X y h = (res, h')" and "a < length h"
  shows "h' ! a = h ! a" and "length h \<le> length h'"
proof -
  from assms(1) have f: "length h \<le> length h' \<and> take (length h) h' = h"
    unfolding rmse_cv_score_def by (rule cv_folds_frame)
  then show "length h \<le> length h'" by simp
  have "h' ! a = take (length h) h' ! a" using assms(2) by simp
  then show "h' ! a = h ! a" using f by simp
qed

lemmas step_defs = ok_def lift_def modify_def on_active_def new_regr_def
  pipeline_fit_def call_rmse_cv_score_def log_params_def log_metrics_def log_train_loss_def
  log_model_def log_artifact_def log_feature_importance_def

lemma fit_evaluate_log_effect:
  assumes "fit_evaluate_log E X X_raw y i params w = (r, w')"
  shows "mlruns w' = mlruns w \<and> features_csv w' = features_csv w \<and>
         artifact_path w' = artifact_path w \<and> model_store w' = model_store w \<and>
         (active_run w \<noteq> None \<longrightarrow> active_run w' \<noteq> None)"
  using assms
  unfolding fit_evaluate_log_def
  by (auto simp: then_do_def step_defs Let_def split: sum.splits prod.splits option.splits)



lemma regr_params_for_self:
  "distinct (map fst g) \<Longrightarrow> set p \<subseteq> set g \<Longrightarrow> regr_params_for g (map fst p) = Inr p"
  by (induction p) auto

lemma fit_evaluate_log_Inr:
  assumes "fit_evaluate_log E X X_raw y i params w = (Inr regr, w')"
  shows "\<exists>pp' Xt f scores h' kvs f'.
           regr = length (heap w) \<and>
           pp_fit_transform E (preprocess_pipeline w) X_raw y = Inr (pp', Xt) \<and>
           regr_fit E params Xt y = Inr f \<and>
           rmse_cv_score E regr X y (heap w @ [\<lparr>hyper = params, fitted = Some f\<rparr>]) = (Inr scores, h') \<and>
           regr_params_for (hyper (h' ! regr)) (map fst params) = Inr kvs \<and>
           fitted (h' ! regr) = Some f' \<and>
           preprocess_pipeline w' = pp' \<and> heap w' = h' \<and>
           calls w' = calls w @ [PipelineFit i X_raw y, RmseCvScore i X y] \<and>
           (\<forall>r0. active_run w = Some r0 \<longrightarrow>
              active_run w' = Some (r0\<lparr>
                run_tags := run_tags r0 @ [(''estimator_name'', ''GradientBoostingRegressor'')],
                run_params := run_params r0 @ map (\<lambda>(k, v). (k, str_of E v)) kvs,
                run_metrics := run_metrics r0 @ (''RMSE_CV'', np_mean E scores) #
                                 map (\<lambda>s. (''Train Loss'', s)) (train_score E f'),
                run_model := Some (pp', h' ! regr),
                run_artifacts := run_artifacts r0 @ [artifact_path w]\<rparr>))"
  using assms
  unfolding fit_evaluate_log_def
  by (auto simp: then_do_def step_defs Let_def split: sum.splits prod.splits option.splits)



lemma fit_evaluate_log_any:
  assumes "fit_evaluate_log E X X_raw y i params w = (r, w')"
  shows "(\<exists>evs. calls w' = calls w @ evs \<and> set evs \<subseteq> set (run_events X X_raw y i)) \<and>
         (\<forall>r0. active_run w = Some r0 \<longrightarrow> (\<exists>r1. active_run w' = Some r1 \<and> run_id r1 = run_id r0))"
  using assms
  unfolding fit_evaluate_log_def run_events_def
  by (auto simp: then_do_def step_defs Let_def split: sum.splits prod.splits option.splits)

lemma train_loss_not_rmse:
  "filter (\<lambda>(k, v). k = ''RMSE_CV'') (map (\<lambda>s. (''Train Loss'', s)) ts) = []"
  by (induction ts) simp_all

lemma log_feature_importance_any:
  assumes "log_feature_importance E i X regr w = (r, w')"
  shows "mlruns w' = mlruns w \<and> features_csv w' = features_csv w \<and>
         dir_model (artifact_path w') = dir_model (artifact_path w) \<and>
         model_store w' = model_store w \<and>
         preprocess_pipeline w' = preprocess_pipeline w \<and> heap w' = heap w \<and>
         calls w' = calls w @ [LogFeatureImportance i X] \<and>
         r = fst (feature_importance_chart E X (heap w ! regr)) \<and>
         active_run w' =
           map_option (\<lambda>r. r\<lparr>run_charts := run_charts r @
              snd (snd (feature_importance_chart E X (heap w ! regr)))\<rparr>) (active_run w)"
  using assms by (auto simp: log_feature_importance_def split: prod.splits)

lemma run_body_any:
  assumes "run_body E X X_raw y i params w = (r, w')"
  shows "mlruns w' = mlruns w \<and> features_csv w' = features_csv w \<and>
         dir_model (artifact_path w') = dir_model (artifact_path w) \<and>
         model_store w' = model_store w \<and>
         (\<exists>evs. calls w' = calls w @ evs \<and> set evs \<subseteq> set (run_events X X_raw y i)) \<and>
         (\<forall>r0. active_run w = Some r0 \<longrightarrow> (\<exists>r1. active_run w' = Some r1 \<and> run_id r1 = run_id r0))"
proof -
  obtain r1 w1 where s1: "fit_evaluate_log E X X_raw y i params w = (r1, w1)"
    by (cases "fit_evaluate_log E X X_raw y i params w")
  note e1 = fit_evaluate_log_effect [OF s1] fit_evaluate_log_any [OF s1]
  show ?thesis
  proof (cases r1)
    case (Inl e)
    with s1 assms have "w' = w1" by (simp add: run_body_def then_do_def)
    with e1 show ?thesis by simp
  next
    case (Inr regr)
    with s1 assms have "log_feature_importance E i X regr w1 = (r, w')"
      by (simp add: run_body_def then_do_def)
    note l = log_feature_importance_any [OF this]
    from e1 obtain evs where evs: "calls w1 = calls w @ evs"
        "set evs \<subseteq> set (run_events X X_raw y i)"
      by blast
    have c: "\<exists>evs. calls w' = calls w @ evs \<and> set evs \<subseteq> set (run_events X X_raw y i)"
    proof (intro exI conjI)
      show "calls w' = calls w @ (evs @ [LogFeatureImportance i X])" using l evs by simp
      show "set (evs @ [LogFeatureImportance i X]) \<subseteq> set (run_events X X_raw y i)"
        using evs(2) by (simp add: run_events_def)
    qed
    have a: "\<forall>r0. active_run w = Some r0 \<longrightarrow>
               (\<exists>r1. active_run w' = Some r1 \<and> run_id r1 = run_id r0)"
      using e1 l by auto
    show ?thesis using e1(1) l c a by simp
  qed
qed

lemma run_body_Inr:
  assumes "run_body E X X_raw y i params w = (Inr u, w')"
  shows "calls w' = calls w @ run_events X X_raw y i"
    and "preprocess_pipeline w' = refit E X_raw y (preprocess_pipeline w)"
    and "active_run w = Some r0 \<Longrightarrow>
           \<exists>r1. active_run w' = Some r1 \<and> latest_metric ''RMSE_CV'' r1 \<noteq> None \<and> run_model r1 \<noteq> None \<and>
                (distinct (map fst params) \<and> run_params r0 = [] \<longrightarrow>
                   run_params r1 = map (\<lambda>(k, v). (k, str_of E v)) params) \<and>
                (run_metrics r0 = [] \<and> run_charts r0 = [] \<longrightarrow>
                   evaluated_run E X X_raw y (preprocess_pipeline w) params r1)"
proof -
  from assms obtain regr w1 where
    s1: "fit_evaluate_log E X X_raw y i params w = (Inr regr, w1)" and
    s2: "log_feature_importance E i X regr w1 = (Inr u, w')"
    by (auto simp: run_body_def then_do_Inr)
  from fit_evaluate_log_Inr [OF s1] obtain pp' Xt f scores h' kvs f' where
    regr: "regr = length (heap w)" and
    pp: "pp_fit_transform E (preprocess_pipeline w) X_raw y = Inr (pp', Xt)" and
    rf: "regr_fit E params Xt y = Inr f" and
    cv: "rmse_cv_score E regr X y (heap w @ [\<lparr>hyper = params, fitted = Some f\<rparr>]) = (Inr scores, h')" and
    kvs: "regr_params_for (hyper (h' ! regr)) (map fst params) = Inr kvs" and
    w1: "preprocess_pipeline w1 = pp'" "heap w1 = h'"
        "calls w1 = calls w @ [PipelineFit i X_raw y, RmseCvScore i X y]" and
    act: "\<forall>r0. active_run w = Some r0 \<longrightarrow>
              active_run w1 = Some (r0\<lparr>
                run_tags := run_tags r0 @ [(''estimator_name'', ''GradientBoostingRegressor'')],
                run_params := run_params r0 @ map (\<lambda>(k, v). (k, str_of E v)) kvs,
                run_metrics := run_metrics r0 @ (''RMSE_CV'', np_mean E scores) #
                                 map (\<lambda>s. (''Train Loss'', s)) (train_score E f'),
                run_model := Some (pp', h' ! regr),
                run_artifacts := run_artifacts r0 @ [artifact_path w]\<rparr>)"
    by blast
  note l = log_feature_importance_any [OF s2]
  show "calls w' = calls w @ run_events X X_raw y i"
    using l w1 by (simp add: run_events_def)
  show "preprocess_pipeline w' = refit E X_raw y (preprocess_pipeline w)"
    using l w1 pp by (simp add: refit_def)
  have same: "h' ! regr = \<lparr>hyper = params, fitted = Some f\<rparr>"
    using rmse_cv_score_frame(1) [OF cv] regr by simp
  have kvs': "distinct (map fst params) \<Longrightarrow> kvs = params"
    using kvs same regr_params_for_self [of params params] by simp
  obtain saved logged where ch:
    "feature_importance_chart E X \<lparr>hyper = params, fitted = Some f\<rparr> = (Inr (), saved, logged)"
    using l w1(2) same by (cases "feature_importance_chart E X \<lparr>hyper = params, fitted = Some f\<rparr>") auto
  show "\<exists>r1. active_run w' = Some r1 \<and> latest_metric ''RMSE_CV'' r1 \<noteq> None \<and> run_model r1 \<noteq> None \<and>
                (distinct (map fst params) \<and> run_params r0 = [] \<longrightarrow>
                   run_params r1 = map (\<lambda>(k, v). (k, str_of E v)) params) \<and>
                (run_metrics r0 = [] \<and> run_charts r0 = [] \<longrightarrow>
                   evaluated_run E X X_raw y (preprocess_pipeline w) params r1)"
    if r0: "active_run w = Some r0"
  proof -
    let ?r = "r0\<lparr>
                run_tags := run_tags r0 @ [(''estimator_name'', ''GradientBoostingRegressor'')],
                run_params := run_params r0 @ map (\<lambda>(k, v). (k, str_of E v)) kvs,
                run_metrics := run_metrics r0 @ (''RMSE_CV'', np_mean E scores) #
                                 map (\<lambda>s. (''Train Loss'', s)) (train_score E f'),
                run_model := Some (pp', h' ! regr),
                run_artifacts := run_artifacts r0 @ [artifact_path w]\<rparr>"
    let ?r1 = "?r\<lparr>run_charts := run_charts ?r @ logged\<rparr>"
    have a1: "active_run w' = Some ?r1"
      using l act r0 w1(2) same ch by simp
    have m: "latest_metric ''RMSE_CV'' ?r1 \<noteq> None"
      by (simp add: latest_metric_def split: list.splits)
    have p: "distinct (map fst params) \<and> run_params r0 = [] \<longrightarrow>
               run_params ?r1 = map (\<lambda>(k, v). (k, str_of E v)) params"
      using kvs' by simp
    have e: "evaluated_run E X X_raw y (preprocess_pipeline w) params ?r1"
      if "run_metrics r0 = []" "run_charts r0 = []"
    proof -
      have "latest_metric ''RMSE_CV'' ?r1 = Some (np_mean E scores)"
        using that(1) by (simp add: latest_metric_def train_loss_not_rmse)
      moreover have "run_model ?r1 = Some (pp', \<lparr>hyper = params, fitted = Some f\<rparr>)"
        using same by simp
      moreover have "run_charts ?r1 = logged" using that(2) by simp
      ultimately show ?thesis
        unfolding evaluated_run_def using pp rf cv ch regr by blast
    qed
    show ?thesis using a1 m p e by (intro exI [of _ ?r1]) simp
  qed
qed

lemma fresh_id_fresh: "fresh_id runs \<notin> set (map run_id runs)"
proof
  assume "fresh_id runs \<in> set (map run_id runs)"
  then have "fresh_id runs \<le> Max (set (0 # map run_id runs))" by (intro Max_ge) auto
  then show False by (simp add: fresh_id_def)
qed

lemma with_run_any:
  assumes "with_run name (run_body E X X_raw y i params) w = (r, w')"
  shows "\<exists>run. mlruns w' = mlruns w @ [run] \<and> run_id run = fresh_id (mlruns w)"
    and "features_csv w' = features_csv w \<and>
         dir_model (artifact_path w') = dir_model (artifact_path w) \<and>
         model_store w' = model_store w"
    and "\<exists>evs. calls w' = calls w @ evs \<and> set evs \<subseteq> set (run_events X X_raw y i)"
proof -
  obtain rb wb where b: "run_body E X X_raw y i params (start_run name w) = (rb, wb)"
    by (cases "run_body E X X_raw y i params (start_run name w)")
  have w': "w' = end_run (case rb of Inl e \<Rightarrow> FAILED | Inr a \<Rightarrow> FINISHED) wb"
    using assms b by (auto simp: with_run_def split: sum.splits)
  note any = run_body_any [OF b]
  from any obtain r1 where r1: "active_run wb = Some r1" "run_id r1 = fresh_id (mlruns w)"
    by (auto simp: start_run_def)
  show "\<exists>run. mlruns w' = mlruns w @ [run] \<and> run_id run = fresh_id (mlruns w)"
    using any r1 w' by (simp add: end_run_def start_run_def)
  show "features_csv w' = features_csv w \<and>
         dir_model (artifact_path w') = dir_model (artifact_path w) \<and>
         model_store w' = model_store w"
    using any r1 w' by (simp add: end_run_def start_run_def)
  show "\<exists>evs. calls w' = calls w @ evs \<and> set evs \<subseteq> set (run_events X X_raw y i)"
    using any r1 w' by (simp add: end_run_def start_run_def)
qed

lemma evaluated_run_status:
  "evaluated_run E X X_raw y pp params r \<Longrightarrow>
   evaluated_run E X X_raw y pp params (r\<lparr>run_status := st\<rparr>)"
  unfolding evaluated_run_def by (simp add: latest_metric_def)

lemma with_run_Inr:
  assumes "with_run name (run_body E X X_raw y i params) w = (Inr u, w')"
  shows "calls w' = calls w @ run_events X X_raw y i"
    and "preprocess_pipeline w' = refit E X_raw y (preprocess_pipeline w)"
    and "\<exists>run. mlruns w' = mlruns w @ [run] \<and> latest_metric ''RMSE_CV'' run \<noteq> None \<and>
               run_model run \<noteq> None \<and>
               (distinct (map fst params) \<longrightarrow> run_params run = map (\<lambda>(k, v). (k, str_of E v)) params) \<and>
               evaluated_run E X X_raw y (preprocess_pipeline w) params run"
proof -
  from assms obtain wb where b: "run_body E X X_raw y i params (start_run name w) = (Inr u, wb)"
    and w': "w' = end_run FINISHED wb"
    by (auto simp: with_run_def split: sum.splits prod.splits)
  note any = run_body_any [OF b]
  have a0: "active_run (start_run name w) = Some
         \<lparr>run_id = fresh_id (mlruns w), run_name = name, run_status = RUNNING,
          run_tags = [], run_params = [], run_metrics = [], run_model = None,
          run_artifacts = [], run_charts = []\<rparr>"
    by (simp add: start_run_def)
  have pp0: "preprocess_pipeline (start_run name w) = preprocess_pipeline w"
    by (simp add: start_run_def)
  from run_body_Inr(3) [OF b a0] pp0 obtain r1 where r1: "active_run wb = Some r1"
      "latest_metric ''RMSE_CV'' r1 \<noteq> None" "run_model r1 \<noteq> None"
      "distinct (map fst params) \<longrightarrow> run_params r1 = map (\<lambda>(k, v). (k, str_of E v)) params"
      "evaluated_run E X X_raw y (preprocess_pipeline w) params r1"
    by auto
  show "calls w' = calls w @ run_events X X_raw y i"
    using run_body_Inr(1) [OF b] r1 w' by (simp add: end_run_def start_run_def)
  show "preprocess_pipeline w' = refit E X_raw y (preprocess_pipeline w)"
    using run_body_Inr(2) [OF b] r1 w' by (simp add: end_run_def start_run_def)
  have "mlruns w' = mlruns w @ [r1\<lparr>run_status := FINISHED\<rparr>]"
    using any r1 w' by (simp add: end_run_def start_run_def)
  moreover have "latest_metric ''RMSE_CV'' (r1\<lparr>run_status := FINISHED\<rparr>) \<noteq> None"
    using r1(2) by (simp add: latest_metric_def)
  moreover have "evaluated_run E X X_raw y (preprocess_pipeline w) params (r1\<lparr>run_status := FINISHED\<rparr>)"
    using r1(5) by (rule evaluated_run_status)
  ultimately show "\<exists>run. mlruns w' = mlruns w @ [run] \<and> latest_metric ''RMSE_CV'' run \<noteq> None \<and>
               run_model run \<noteq> None \<and>
               (distinct (map fst params) \<longrightarrow> run_params run = map (\<lambda>(k, v). (k, str_of E v)) params) \<and>
               evaluated_run E X X_raw y (preprocess_pipeline w) params run"
    using r1 by auto
qed

lemma grid_search_any:
  assumes "grid_search E X X_raw y i param_set w = (r, w')"
  shows "features_csv w' = features_csv w \<and>
         dir_model (artifact_path w') = dir_model (artifact_path w) \<and>
         model_store w' = model_store w \<and>
         (\<exists>rs. mlruns w' = mlruns w @ rs \<and> (param_set \<noteq> [] \<longrightarrow> rs \<noteq> [])) \<and>
         (distinct (map run_id (mlruns w)) \<longrightarrow> distinct (map run_id (mlruns w'))) \<and>
         (\<exists>evs. calls w' = calls w @ evs \<and> (\<forall>ev \<in> set evs. \<exists>j. ev \<in> set (run_events X X_raw y j)))"
  using assms
proof (induction param_set arbitrary: i w)
  case Nil
  then show ?case by (simp add: ok_def)
next
  case (Cons params param_set)
  obtain r1 w1 where s1: "with_run (''Run '' @ str_nat i) (run_body E X X_raw y i params) w = (r1, w1)"
    by (cases "with_run (''Run '' @ str_nat i) (run_body E X X_raw y i params) w")
  note a = with_run_any [OF s1]
  from a(1) obtain run where run: "mlruns w1 = mlruns w @ [run]" "run_id run = fresh_id (mlruns w)"
    by blast
  have d1: "distinct (map run_id (mlruns w)) \<longrightarrow> distinct (map run_id (mlruns w1))"
    using run fresh_id_fresh [of "mlruns w"] by simp
  have e1: "\<exists>evs. calls w1 = calls w @ evs \<and> (\<forall>ev \<in> set evs. \<exists>j. ev \<in> set (run_events X X_raw y j))"
    using a(3) by blast
  show ?case
  proof (cases r1)
    case (Inl e)
    with s1 Cons.prems have "w' = w1" by (simp add: then_do_def)
    with a(2) run d1 e1 show ?thesis by simp
  next
    case (Inr u)
    with s1 Cons.prems have "grid_search E X X_raw y (Suc i) param_set w1 = (r, w')"
      by (simp add: then_do_def)
    note ih = Cons.IH [OF this]
    from ih obtain rs where rs: "mlruns w' = mlruns w1 @ rs" by blast
    from ih obtain evs2 where evs2: "calls w' = calls w1 @ evs2"
        "\<forall>ev \<in> set evs2. \<exists>j. ev \<in> set (run_events X X_raw y j)" by blast
    from e1 obtain evs1 where evs1: "calls w1 = calls w @ evs1"
        "\<forall>ev \<in> set evs1. \<exists>j. ev \<in> set (run_events X X_raw y j)" by blast
    have m: "\<exists>rs. mlruns w' = mlruns w @ rs \<and> (params # param_set \<noteq> [] \<longrightarrow> rs \<noteq> [])"
      using rs run(1) by simp
    have c: "\<exists>evs. calls w' = calls w @ evs \<and> (\<forall>ev \<in> set evs. \<exists>j. ev \<in> set (run_events X X_raw y j))"
    proof (intro exI conjI)
      show "calls w' = calls w @ (evs1 @ evs2)" using evs1 evs2 by simp
      show "\<forall>ev \<in> set (evs1 @ evs2). \<exists>j. ev \<in> set (run_events X X_raw y j)"
        using evs1(2) evs2(2) by auto
    qed
    have d: "distinct (map run_id (mlruns w)) \<longrightarrow> distinct (map run_id (mlruns w'))"
      using ih d1 by blast
    have f: "features_csv w' = features_csv w \<and>
         dir_model (artifact_path w') = dir_model (artifact_path w) \<and>
         model_store w' = model_store w"
      using ih a(2) by simp
    show ?thesis using f m d c by blast
  qed
qed

lemma grid_search_Inr:
  assumes "grid_search E X X_raw y i param_set w = (Inr u, w')"
  shows "calls w' = calls w @ concat (map (run_events X X_raw y) [i..<i + length param_set]) \<and>
         preprocess_pipeline w' = (refit E X_raw y ^^ length param_set) (preprocess_pipeline w) \<and>
         (\<exists>rs. mlruns w' = mlruns w @ rs \<and> length rs = length param_set \<and>
               (\<forall>run \<in> set rs. latest_metric ''RMSE_CV'' run \<noteq> None \<and> run_model run \<noteq> None) \<and>
               ((\<forall>params \<in> set param_set. distinct (map fst params)) \<longrightarrow>
                  map run_params rs = map (map (\<lambda>(k, v). (k, str_of E v))) param_set) \<and>
               (\<forall>j < length rs.
                  evaluated_run E X X_raw y ((refit E X_raw y ^^ j) (preprocess_pipeline w))
                    (param_set ! j) (rs ! j)))"
  using assms
proof (induction param_set arbitrary: i w)
  case Nil
  then show ?case by (simp add: ok_def)
next
  case (Cons params param_set)
  from Cons.prems obtain u1 w1 where
    s1: "with_run (''Run '' @ str_nat i) (run_body E X X_raw y i params) w = (Inr u1, w1)" and
    s2: "grid_search E X X_raw y (Suc i) param_set w1 = (Inr u, w')"
    by (auto simp: then_do_Inr)
  note a = with_run_Inr [OF s1]
  from a(3) obtain run where run: "mlruns w1 = mlruns w @ [run]"
      "latest_metric ''RMSE_CV'' run \<noteq> None" "run_model run \<noteq> None"
      "distinct (map fst params) \<longrightarrow> run_params run = map (\<lambda>(k, v). (k, str_of E v)) params"
      "evaluated_run E X X_raw y (preprocess_pipeline w) params run"
    by blast
  from Cons.IH [OF s2] obtain rs where
    c: "calls w' = calls w1 @ concat (map (run_events X X_raw y) [Suc i..<Suc i + length param_set])" and
    p: "preprocess_pipeline w' = (refit E X_raw y ^^ length param_set) (preprocess_pipeline w1)" and
    rs: "mlruns w' = mlruns w1 @ rs" "length rs = length param_set"
        "\<forall>run \<in> set rs. latest_metric ''RMSE_CV'' run \<noteq> None \<and> run_model run \<noteq> None"
        "(\<forall>params \<in> set param_set. distinct (map fst params)) \<longrightarrow>
            map run_params rs = map (map (\<lambda>(k, v). (k, str_of E v))) param_set" and
    ev: "\<forall>j < length rs.
            evaluated_run E X X_raw y ((refit E X_raw y ^^ j) (preprocess_pipeline w1))
              (param_set ! j) (rs ! j)"
    by blast
  have "[i..<i + length (params # param_set)] = i # [Suc i..<Suc i + length param_set]"
    by (simp add: upt_rec)
  then have c': "calls w' = calls w @ concat (map (run_events X X_raw y) [i..<i + length (params # param_set)])"
    using c a(1) by simp
  have p': "preprocess_pipeline w' = (refit E X_raw y ^^ length (params # param_set)) (preprocess_pipeline w)"
    using p a(2) by (simp add: funpow_swap1)
  have ev': "\<forall>j < length (run # rs).
            evaluated_run E X X_raw y ((refit E X_raw y ^^ j) (preprocess_pipeline w))
              ((params # param_set) ! j) ((run # rs) ! j)"
  proof (intro allI impI)
    fix j assume j: "j < length (run # rs)"
    show "evaluated_run E X X_raw y ((refit E X_raw y ^^ j) (preprocess_pipeline w))
              ((params # param_set) ! j) ((run # rs) ! j)"
    proof (cases j)
      case 0
      then show ?thesis using run(5) by simp
    next
      case (Suc k)
      then have "k < length rs" using j by simp
      with ev have "evaluated_run E X X_raw y ((refit E X_raw y ^^ k) (preprocess_pipeline w1))
              (param_set ! k) (rs ! k)" by blast
      then show ?thesis using Suc a(2) by (simp add: funpow_swap1)
    qed
  qed
  have "mlruns w' = mlruns w @ (run # rs) \<and> length (run # rs) = length (params # param_set) \<and>
        (\<forall>run \<in> set (run # rs). latest_metric ''RMSE_CV'' run \<noteq> None \<and> run_model run \<noteq> None) \<and>
        ((\<forall>params \<in> set (params # param_set). distinct (map fst params)) \<longrightarrow>
            map run_params (run # rs) = map (map (\<lambda>(k, v). (k, str_of E v))) (params # param_set))"
    using run rs by simp
  then show ?case using c' p' ev' by blast
qed

section \<open>Cross-validation and best-run selection\<close>

lemma find_run_id:
  "distinct (map run_id runs) \<Longrightarrow> r \<in> set runs \<Longrightarrow>
     find (\<lambda>r'. run_id r' = run_id r) runs = Some r"
  by (induction runs) (auto simp: rev_image_eqI)

lemma set_map_filter_conv:
  "set (List.map_filter g xs) = {y. \<exists>x \<in> set xs. g x = Some y}"
proof (induction xs)
  case Nil
  show ?case by (simp add: map_filter_simps)
next
  case (Cons x xs)
  show ?case
  proof (cases "g x")
    case None
    then show ?thesis using Cons by (auto simp: map_filter_simps)
  next
    case (Some y)
    then show ?thesis using Cons by (auto simp: map_filter_simps)
  qed
qed

lemma take_one_append: "xs \<noteq> [] \<Longrightarrow> take (Suc 0) (xs @ ys) = [hd xs]"
  by (cases xs) simp_all

lemma search_runs_head:
  assumes "runs \<noteq> []"
  shows "\<exists>r. search_runs key 1 runs = [r] \<and> r \<in> set runs \<and>
             (\<forall>r' \<in> set runs. \<forall>v. latest_metric key r' = Some v \<longrightarrow>
                (\<exists>b. latest_metric key r = Some b \<and> b \<le> v))"
proof -
  let ?g = "\<lambda>r. map_option (\<lambda>v. (v, r)) (latest_metric key r)"
  let ?wm = "List.map_filter ?g (rev runs)"
  let ?wo = "filter (\<lambda>r. latest_metric key r = None) (rev runs)"
  have sr: "search_runs key 1 runs = take 1 (map snd (sort_key fst ?wm) @ ?wo)"
    by (simp add: search_runs_def Let_def)
  have wm_set: "set ?wm = {(v, r). r \<in> set runs \<and> latest_metric key r = Some v}"
    unfolding set_map_filter_conv by auto
  show ?thesis
  proof (cases "?wm = []")
    case True
    have none: "\<forall>r \<in> set runs. latest_metric key r = None"
    proof
      fix r assume r: "r \<in> set runs"
      show "latest_metric key r = None"
      proof (rule ccontr)
        assume "latest_metric key r \<noteq> None"
        then obtain v where "latest_metric key r = Some v" by blast
        with r have "(v, r) \<in> set ?wm" unfolding wm_set by blast
        with True show False by simp
      qed
    qed
    then have wo: "?wo = rev runs" by simp
    have "take 1 (rev runs) = [hd (rev runs)]"
      using assms by (cases "rev runs") simp_all
    then have "search_runs key 1 runs = [hd (rev runs)]"
      unfolding sr True wo by simp
    moreover have "hd (rev runs) \<in> set (rev runs)"
      using assms by (intro hd_in_set) simp
    ultimately show ?thesis using none by auto
  next
    case False
    have "length (sort_key fst ?wm) = length ?wm" by (rule length_sort)
    with False have "sort_key fst ?wm \<noteq> []" by (metis length_0_conv)
    then obtain p ps where sorted_wm: "sort_key fst ?wm = p # ps"
      by (cases "sort_key fst ?wm") blast+
    have set_eq: "set (p # ps) = set ?wm"
      unfolding sorted_wm [symmetric] by (rule set_sort)
    have p_in: "p \<in> set ?wm"
      unfolding set_eq [symmetric] by simp
    have srt: "sorted (map fst (p # ps))"
      unfolding sorted_wm [symmetric] by (rule sorted_sort_key)
    have le: "\<forall>q \<in> set ?wm. fst p \<le> fst q"
      unfolding set_eq [symmetric] using srt by auto
    have "search_runs key 1 runs = [snd p]"
      unfolding sr sorted_wm by simp
    moreover have "snd p \<in> set runs \<and> latest_metric key (snd p) = Some (fst p)"
      using p_in unfolding wm_set by auto
    moreover have "\<forall>r' \<in> set runs. \<forall>v. latest_metric key r' = Some v \<longrightarrow> fst p \<le> v"
    proof (intro ballI allI impI)
      fix r' v assume "r' \<in> set runs" "latest_metric key r' = Some v"
      then have "(v, r') \<in> set ?wm" unfolding wm_set by blast
      with le show "fst p \<le> v" by fastforce
    qed
    ultimately show ?thesis by auto
  qed
qed

lemma select_best_head:
  assumes "mlruns w \<noteq> []" and "distinct (map run_id (mlruns w))"
  shows "\<exists>best. select_best w = (Inr best, w) \<and> best \<in> set (mlruns w) \<and>
           (\<forall>r \<in> set (mlruns w). \<forall>v. latest_metric ''RMSE_CV'' r = Some v \<longrightarrow>
              (\<exists>b. latest_metric ''RMSE_CV'' best = Some b \<and> b \<le> v))"
proof -
  from search_runs_head [OF assms(1), of "''RMSE_CV''"] obtain r where
    r: "search_runs ''RMSE_CV'' 1 (mlruns w) = [r]" "r \<in> set (mlruns w)"
       "\<forall>r' \<in> set (mlruns w). \<forall>v. latest_metric ''RMSE_CV'' r' = Some v \<longrightarrow>
                (\<exists>b. latest_metric ''RMSE_CV'' r = Some b \<and> b \<le> v)"
    by blast
  have "select_best w = (Inr r, w)"
    using r(1,2) find_run_id [OF assms(2) r(2)] by (simp add: select_best_def get_run_def)
  with r show ?thesis by blast
qed

text \<open>
  C7: \<open>rmse_cv_score\<close> does not change the estimator it is given: for every estimator
  already on the heap, feature matrix and target vector, the object at the caller's
  address is the same before and after the call, and so is every other object the caller
  could hold; cross-validation only allocates and fits clones.
\<close>

theorem rmse_cv_score_leaves_estimator:
  assumes "a < length h"
  shows "snd (rmse_cv_score E a X y h) ! a = h ! a \<and>
         take (length h) (snd (rmse_cv_score E a X y h)) = h"
proof -
  obtain res h' where r: "rmse_cv_score E a X y h = (res, h')"
    by (cases "rmse_cv_score E a X y h")
  then have "length h \<le> length h' \<and> take (length h) h' = h"
    unfolding rmse_cv_score_def by (rule cv_folds_frame)
  with rmse_cv_score_frame(1) [OF r assms] r show ?thesis by simp
qed

theorem rmse_cv_score_leaves_estimator_witness:
  "snd (rmse_cv_score toy_env 0 toy_X toy_y [\<lparr>hyper = [(''max_depth'', PInt 3)], fitted = Some 5\<rparr>]) ! 0
     = \<lparr>hyper = [(''max_depth'', PInt 3)], fitted = Some 5\<rparr> \<and>
   rmse_cv_score toy_env 0 toy_X toy_y [\<lparr>hyper = [(''max_depth'', PInt 3)], fitted = Some 5\<rparr>]
     = (Inr [7], [\<lparr>hyper = [(''max_depth'', PInt 3)], fitted = Some 5\<rparr>,
                  \<lparr>hyper = [(''max_depth'', PInt 3)], fitted = Some 2\<rparr>])"
proof -
  have h: "(0::nat) < length [\<lparr>hyper = [(''max_depth'', PInt 3)], fitted = Some (5::nat)\<rparr>]" by simp
  have v: "rmse_cv_score toy_env 0 toy_X toy_y [\<lparr>hyper = [(''max_depth'', PInt 3)], fitted = Some 5\<rparr>]
     = (Inr [7], [\<lparr>hyper = [(''max_depth'', PInt 3)], fitted = Some 5\<rparr>,
                  \<lparr>hyper = [(''max_depth'', PInt 3)], fitted = Some 2\<rparr>])"
    by (simp add: rmse_cv_score_def toy_env_def toy_X_def toy_y_def)
  show ?thesis
    using v rmse_cv_score_leaves_estimator [OF h, of toy_env toy_X toy_y] by simp
qed

text \<open>
  C1: when the experiment holds at least one run (runs being keyed by distinct ids),
  best-run selection succeeds and returns a tracked run whose \<open>RMSE_CV\<close> metric is less
  than or equal to that of every run carrying the metric; with three runs of mean RMSE 5,
  2 and 3 the run with 2 is selected.
\<close>

theorem select_best_minimal:
  assumes "mlruns w \<noteq> []" and "distinct (map run_id (mlruns w))"
  shows "\<exists>best. select_best w = (Inr best, w) \<and> best \<in> set (mlruns w) \<and>
           (\<forall>r \<in> set (mlruns w). \<forall>v. latest_metric ''RMSE_CV'' r = Some v \<longrightarrow>
              (\<exists>b. latest_metric ''RMSE_CV'' best = Some b \<and> b \<le> v))"
  using assms by (rule select_best_head)

theorem select_best_minimal_witness:
  "select_best three_runs = (Inr (tracked_run 2 2), three_runs) \<and>
   map (latest_metric ''RMSE_CV'') (mlruns three_runs) = [Some 5, Some 2, Some 3]"
proof -
  have h1: "mlruns three_runs \<noteq> []" by (simp add: three_runs_def)
  have h2: "distinct (map run_id (mlruns three_runs))"
    by (simp add: three_runs_def tracked_run_def)
  have v: "select_best three_runs = (Inr (tracked_run 2 2), three_runs)"
    by code_simp
  have m: "map (latest_metric ''RMSE_CV'') (mlruns three_runs) = [Some 5, Some 2, Some 3]"
    by (simp add: three_runs_def tracked_run_def latest_metric_def)
  show ?thesis
    using v m select_best_minimal [OF h1 h2] by simp
qed

section \<open>The training phase and the two fatal branches\<close>

lemma feature_engineering_any:
  assumes "feature_engineering E train_df w = (r, w')"
  shows "mlruns w' = mlruns w \<and> features_csv w' = features_csv w \<and>
         artifact_path w' = artifact_path w \<and> model_store w' = model_store w"
  using assms unfolding feature_engineering_def
  by (auto simp: then_do_def step_defs fit_transform_def Let_def split: sum.splits prod.splits)

lemma feature_engineering_Inr:
  assumes "feature_engineering E train_df w = (Inr (X_raw, y, X), w')"
  shows "drop_columns [''rent'', ''area_locality'', ''posted_on''] train_df = Inr X_raw"
    and "\<exists>rent. getitem train_df ''rent'' = Inr rent \<and> y = map (\<lambda>(i, v). (i, np_log1p E v)) rent"
    and "pp_fit_transform E (preprocess_pipeline w) X_raw y = Inr (preprocess_pipeline w', X)"
    and "calls w' = calls w @ [FitTransform X_raw y]"
  using assms unfolding feature_engineering_def
  by (auto simp: then_do_def step_defs fit_transform_def Let_def split: sum.splits prod.splits)

lemma train_phase_cases:
  assumes "train_phase E grid train_df w = (r, w1)"
  shows "(\<exists>e. feature_engineering E train_df w = (Inl e, w1) \<and> r = Inl e) \<or>
         (\<exists>X_raw y X wa. feature_engineering E train_df w = (Inr (X_raw, y, X), wa) \<and>
            grid_search E X X_raw y 0 (get_param_set grid)
              (wa\<lparr>features_csv := Some (to_csv (assign (np_nan E) X ''rent'' y))\<rparr>) = (r, w1))"
  using assms unfolding train_phase_def
  by (auto simp: then_do_def persist_features_def modify_def split: sum.splits prod.splits)

lemma train_phase_any:
  assumes "train_phase E grid train_df w = (r, w1)"
  shows "dir_model (artifact_path w1) = dir_model (artifact_path w) \<and>
         model_store w1 = model_store w \<and>
         (\<exists>rs. mlruns w1 = mlruns w @ rs) \<and>
         (distinct (map run_id (mlruns w)) \<longrightarrow> distinct (map run_id (mlruns w1)))"
  using train_phase_cases [OF assms]
proof (elim disjE exE conjE)
  fix e assume "feature_engineering E train_df w = (Inl e, w1)"
  from feature_engineering_any [OF this] show ?thesis by simp
next
  fix X_raw y X wa
  assume fe: "feature_engineering E train_df w = (Inr (X_raw, y, X), wa)"
    and gs: "grid_search E X X_raw y 0 (get_param_set grid)
              (wa\<lparr>features_csv := Some (to_csv (assign (np_nan E) X ''rent'' y))\<rparr>) = (r, w1)"
  from feature_engineering_any [OF fe] grid_search_any [OF gs] show ?thesis by auto
qed

lemma train_phase_Inr:
  assumes "train_phase E grid train_df w = (Inr u, w1)"
  shows "\<exists>X_raw y X wa. feature_engineering E train_df w = (Inr (X_raw, y, X), wa) \<and>
            grid_search E X X_raw y 0 (get_param_set grid)
              (wa\<lparr>features_csv := Some (to_csv (assign (np_nan E) X ''rent'' y))\<rparr>) = (Inr u, w1)"
  using train_phase_cases [OF assms] by auto

lemma train_phase_runs:
  assumes "train_phase E grid train_df w = (Inr u, w1)"
  shows "\<exists>rs. mlruns w1 = mlruns w @ rs \<and> length rs = length (get_param_set grid) \<and>
           (\<forall>run \<in> set rs. latest_metric ''RMSE_CV'' run \<noteq> None \<and> run_model run \<noteq> None) \<and>
           ((\<forall>params \<in> set (get_param_set grid). distinct (map fst params)) \<longrightarrow>
               map run_params rs = map (map (\<lambda>(k, v). (k, str_of E v))) (get_param_set grid))"
proof -
  from train_phase_Inr [OF assms] obtain X_raw y X wa where
    fe: "feature_engineering E train_df w = (Inr (X_raw, y, X), wa)" and
    gs: "grid_search E X X_raw y 0 (get_param_set grid)
              (wa\<lparr>features_csv := Some (to_csv (assign (np_nan E) X ''rent'' y))\<rparr>) = (Inr u, w1)"
    by blast
  from feature_engineering_any [OF fe] grid_search_Inr [OF gs] show ?thesis by auto
qed

lemma train_phase_no_runs:
  assumes tp: "train_phase E grid train_df w = (Inr u, w1)" and none: "mlruns w1 = []"
  shows "artifact_path w1 = artifact_path w"
proof -
  from train_phase_runs [OF tp] none have e: "get_param_set grid = []" by auto
  from train_phase_Inr [OF tp] obtain X_raw y X wa where
    fe: "feature_engineering E train_df w = (Inr (X_raw, y, X), wa)" and
    gs: "grid_search E X X_raw y 0 (get_param_set grid)
              (wa\<lparr>features_csv := Some (to_csv (assign (np_nan E) X ''rent'' y))\<rparr>) = (Inr u, w1)"
    by blast
  from gs e have "w1 = wa\<lparr>features_csv := Some (to_csv (assign (np_nan E) X ''rent'' y))\<rparr>"
    by (simp add: ok_def)
  with feature_engineering_any [OF fe] show ?thesis by simp
qed

lemma search_runs_nonempty:
  "runs \<noteq> [] \<Longrightarrow> search_runs key 1 runs \<noteq> []"
  using search_runs_head [of runs key] by auto

lemma fst_eqD: "fst p = a \<Longrightarrow> p = (a, snd p)"
  by (cases p) simp

text \<open>
  C2: when the experiment holds no run at selection time, the driver raises the exception
  whose message is \<^verbatim>\<open>Found no runs for experiment 'new_experiment'\<close>, the process
  ends with a non-zero exit code, and nothing is exported: the model store and the
  artifact directory are as they were before the script started.
\<close>

theorem no_runs_fatal:
  assumes "train_phase E grid train_df (fresh_process E w0) = (Inr (), w1)"
    and "mlruns w1 = []"
  shows "driver E grid train_df w0 = (Inl (Exception no_runs_message), w1) \<and>
         no_runs_message =
           ''Found no runs for experiment '' @ [CHR 0x27] @ ''new_experiment'' @ [CHR 0x27] \<and>
         exit_code (driver E grid train_df w0) = 1 \<and>
         model_store w1 = model_store w0 \<and> artifact_path w1 = artifact_path w0"
proof -
  have sel: "select_best w1 = (Inl (Exception no_runs_message), w1)"
    using assms(2) by (simp add: select_best_def search_runs_def)
  have d: "driver E grid train_df w0 = (Inl (Exception no_runs_message), w1)"
    using assms(1) sel by (simp add: driver_def then_do_def)
  have m: "model_store w1 = model_store w0 \<and> artifact_path w1 = artifact_path w0"
    using train_phase_any [OF assms(1)] train_phase_no_runs [OF assms]
    by (simp add: fresh_process_def)
  show ?thesis
    using d m by (simp add: exit_code_def no_runs_message_def experiment_name_def)
qed

theorem no_runs_fatal_witness:
  "fst (driver toy_env [(''max_depth'', [])] toy_df empty_world) =
     Inl (Exception (''Found no runs for experiment '' @ [CHR 0x27] @ ''new_experiment'' @ [CHR 0x27])) \<and>
   exit_code (driver toy_env [(''max_depth'', [])] toy_df empty_world) = 1 \<and>
   model_store (snd (driver toy_env [(''max_depth'', [])] toy_df empty_world)) = []"
proof -
  let ?p = "train_phase toy_env [(''max_depth'', [])] toy_df (fresh_process toy_env empty_world)"
  have "fst ?p = Inr ()" by code_simp
  then have h1: "?p = (Inr (), snd ?p)" by (rule fst_eqD)
  have h2: "mlruns (snd ?p) = []" by code_simp
  have e: "model_store empty_world = []" by (simp add: empty_world_def)
  show ?thesis
    using no_runs_fatal [OF h1 h2] e by (simp add: exit_code_def)
qed

text \<open>
  C9: the hard-coded grid has three keys with one candidate each, so it expands to one
  parameter set; every execution that reaches best-run selection without an earlier
  exception has tracked one more run than the experiment held before, the query for the
  best run returns a row, and selection does not raise the no-runs exception.
\<close>

theorem hard_coded_grid_never_empty:
  assumes "train_phase E params_candidates train_df (fresh_process E w0) = (Inr (), w1)"
  shows "length params_candidates = 3 \<and>
         map (\<lambda>(k, vs). length vs) params_candidates = [1, 1, 1] \<and>
         length (get_param_set params_candidates) = 1 \<and>
         length (mlruns w1) = length (mlruns w0) + 1 \<and>
         search_runs ''RMSE_CV'' 1 (mlruns w1) \<noteq> [] \<and>
         fst (select_best w1) \<noteq> Inl (Exception no_runs_message)"
proof -
  have g: "length (get_param_set params_candidates) = 1"
    by (simp add: get_param_set_def params_candidates_def)
  from train_phase_runs [OF assms] obtain rs where
    rs: "mlruns w1 = mlruns (fresh_process E w0) @ rs" "length rs = length (get_param_set params_candidates)"
    by blast
  have len: "length (mlruns w1) = length (mlruns w0) + 1"
    using rs g by (simp add: fresh_process_def)
  then have ne: "mlruns w1 \<noteq> []" by auto
  have sr: "search_runs ''RMSE_CV'' 1 (mlruns w1) \<noteq> []"
    using ne by (rule search_runs_nonempty)
  have "fst (select_best w1) \<noteq> Inl (Exception no_runs_message)"
    using sr by (auto simp: select_best_def get_run_def split: list.splits option.splits)
  then show ?thesis
    using g len sr by (simp add: params_candidates_def)
qed

theorem hard_coded_grid_never_empty_witness:
  "fst (main toy_env toy_df empty_world) = Inr () \<and>
   length (mlruns (snd (train_phase toy_env params_candidates toy_df
      (fresh_process toy_env empty_world)))) = 1 \<and>
   length (get_param_set params_candidates) = 1"
proof -
  let ?p = "train_phase toy_env params_candidates toy_df (fresh_process toy_env empty_world)"
  have "fst ?p = Inr ()" by code_simp
  then have h1: "?p = (Inr (), snd ?p)" by (rule fst_eqD)
  have m: "fst (main toy_env toy_df empty_world) = Inr ()" by code_simp
  have e: "mlruns empty_world = []" by (simp add: empty_world_def)
  show ?thesis
    using hard_coded_grid_never_empty [OF h1] m e by simp
qed

section \<open>Feature persistence and the shared preprocessing instance\<close>

lemma assign_aligned:
  assumes "distinct idx" and "length vs = length idx"
  shows "map (\<lambda>i. case map_of (zip idx vs) i of Some v \<Rightarrow> v | None \<Rightarrow> nan) idx = vs"
proof (rule nth_equalityI)
  show "length (map (\<lambda>i. case map_of (zip idx vs) i of Some v \<Rightarrow> v | None \<Rightarrow> nan) idx) = length vs"
    using assms(2) by simp
next
  fix n assume "n < length (map (\<lambda>i. case map_of (zip idx vs) i of Some v \<Rightarrow> v | None \<Rightarrow> nan) idx)"
  then have n: "n < length idx" by simp
  then have "map_of (zip idx vs) (idx ! n) = Some (vs ! n)"
    using assms by (intro map_of_zip_nth) simp_all
  then show "map (\<lambda>i. case map_of (zip idx vs) i of Some v \<Rightarrow> v | None \<Rightarrow> nan) idx ! n = vs ! n"
    using n by simp
qed

lemma rent_column_persisted:
  assumes "distinct (index X)" and "length vs = length (index X)"
  shows "map_of (csv_columns (to_csv (assign nan X ''rent'' (zip (index X) vs)))) ''rent'' = Some vs"
    and "csv_rows (to_csv (assign nan X ''rent'' (zip (index X) vs))) = length (index X)"
  using assign_aligned [OF assms, of nan]
  by (simp_all add: to_csv_def assign_def update_conv')

lemma event_target_run_events:
  "ev \<in> set (run_events X X_raw y j) \<Longrightarrow> event_target ev = None \<or> event_target ev = Some y"
  by (auto simp: run_events_def)

text \<open>
  C5: the target vector is computed once, as \<open>log1p\<close> of the \<open>rent\<close> column, and every
  later call that takes a target receives that same vector; provided the preprocessing
  pipeline returns one row per training row (the same row labels), the persisted feature
  file has as many rows as the training table and its \<open>rent\<close> column is, element by
  element, \<open>log1p\<close> of the original \<open>rent\<close> column. This holds whatever the grid search
  does afterwards.
\<close>

theorem features_csv_roundtrip:
  assumes rent: "map_of (columns train_df) ''rent'' = Some rents"
    and len: "length rents = length (index train_df)"
    and dist: "distinct (index train_df)"
    and fe: "feature_engineering E train_df (fresh_process E w0) = (Inr (X_raw, y, X), wa)"
    and rows: "index X = index train_df"
    and tp: "train_phase E grid train_df (fresh_process E w0) = (res, w1)"
  shows "y = zip (index train_df) (map (np_log1p E) rents) \<and>
         features_csv w1 = Some (to_csv (assign (np_nan E) X ''rent'' y)) \<and>
         csv_rows (to_csv (assign (np_nan E) X ''rent'' y)) = length (index train_df) \<and>
         map_of (csv_columns (to_csv (assign (np_nan E) X ''rent'' y))) ''rent''
           = Some (map (np_log1p E) rents) \<and>
         (\<forall>ev \<in> set (calls w1). event_target ev = None \<or> event_target ev = Some y)"
proof -
  from feature_engineering_Inr(2) [OF fe] rent
  have y: "y = zip (index train_df) (map (np_log1p E) rents)"
    by (auto simp: getitem_def zip_map2)
  have gs: "grid_search E X X_raw y 0 (get_param_set grid)
              (wa\<lparr>features_csv := Some (to_csv (assign (np_nan E) X ''rent'' y))\<rparr>) = (res, w1)"
    using train_phase_cases [OF tp] fe by auto
  note any = grid_search_any [OF gs]
  have csv: "features_csv w1 = Some (to_csv (assign (np_nan E) X ''rent'' y))"
    using any by simp
  have c0: "calls wa = [FitTransform X_raw y]"
    using feature_engineering_Inr(4) [OF fe] by (simp add: fresh_process_def)
  from any obtain evs where evs: "calls w1 = calls wa @ evs"
      "\<forall>ev \<in> set evs. \<exists>j. ev \<in> set (run_events X X_raw y j)"
    by auto
  have tgt: "\<forall>ev \<in> set (calls w1). event_target ev = None \<or> event_target ev = Some y"
    using evs c0 event_target_run_events [of _ X X_raw y] by auto
  have d: "distinct (index X)" and l: "length (map (np_log1p E) rents) = length (index X)"
    using dist len rows by simp_all
  note col = rent_column_persisted [OF d l, of "np_nan E"]
  show ?thesis
    using y csv tgt col rows by simp
qed

theorem features_csv_roundtrip_witness:
  "toy_y = zip (index toy_df) (map (np_log1p toy_env) [10, 20]) \<and>
   features_csv (snd (train_phase toy_env params_candidates toy_df
       (fresh_process toy_env empty_world)))
     = Some \<lparr>csv_rows = 2, csv_columns = [(''bhk'', [2, 3]), (''rent'', [11, 21])]\<rparr>"
proof -
  let ?w = "fresh_process toy_env empty_world"
  let ?p = "train_phase toy_env params_candidates toy_df ?w"
  have h1: "map_of (columns toy_df) ''rent'' = Some [10, 20]" by (simp add: toy_df_def)
  have h2: "length [10, 20 :: int] = length (index toy_df)" by (simp add: toy_df_def)
  have h3: "distinct (index toy_df)" by (simp add: toy_df_def)
  have "fst (feature_engineering toy_env toy_df ?w) = Inr (toy_X, toy_y, toy_X)" by code_simp
  then have h4: "feature_engineering toy_env toy_df ?w
      = (Inr (toy_X, toy_y, toy_X), snd (feature_engineering toy_env toy_df ?w))"
    by (rule fst_eqD)
  have h5: "index toy_X = index toy_df" by (simp add: toy_X_def toy_df_def)
  have h6: "?p = (fst ?p, snd ?p)" by simp
  have v: "to_csv (assign (np_nan toy_env) toy_X ''rent'' toy_y)
     = \<lparr>csv_rows = 2, csv_columns = [(''bhk'', [2, 3]), (''rent'', [11, 21])]\<rparr>"
    by (simp add: to_csv_def assign_def toy_env_def toy_X_def toy_y_def)
  have c1: "toy_y = zip (index toy_df) (map (np_log1p toy_env) [10, 20])"
    by (simp add: toy_y_def toy_df_def toy_env_def)
  have c2: "features_csv (snd ?p)
     = Some \<lparr>csv_rows = 2, csv_columns = [(''bhk'', [2, 3]), (''rent'', [11, 21])]\<rparr>"
    using features_csv_roundtrip [OF h1 h2 h3 h4 h5 h6] v by simp
  from c1 c2 show ?thesis by (rule conjI)
qed

text \<open>
  C10: there is one preprocessing instance. The standalone \<open>fit_transform\<close> before the
  loop fits it on the raw features and yields the feature matrix \<open>X\<close>; every run's
  pipeline fit fits that same instance again on the raw features, so the run with index j
  finds it fitted j + 1 times and leaves it fitted j + 2 times, and that state is part of
  the model the run logs. The feature matrix is not computed again: in every run the
  logged \<open>RMSE_CV\<close> is the mean of what \<open>rmse_cv_score\<close> returns on the \<open>X\<close> of before the
  loop (for the regressor the pipeline fit has fitted), and the logged charts are those
  the chart logger produces from that same \<open>X\<close>. The calls of a successful training phase
  are the standalone fit followed, run by run, by the pipeline fit on the raw features,
  the cross-validation on \<open>X\<close> and the chart on \<open>X\<close>.
\<close>

theorem shared_pipeline_fixed_features:
  assumes "train_phase E grid train_df (fresh_process E w0) = (Inr (), w1)"
  shows "\<exists>X_raw y pp1 X rs.
           drop_columns [''rent'', ''area_locality'', ''posted_on''] train_df = Inr X_raw \<and>
           pp_fit_transform E (pp_unfitted E) X_raw y = Inr (pp1, X) \<and>
           calls w1 = FitTransform X_raw y #
             concat (map (run_events X X_raw y) [0..<length (get_param_set grid)]) \<and>
           preprocess_pipeline w1 = (refit E X_raw y ^^ length (get_param_set grid)) pp1 \<and>
           mlruns w1 = mlruns w0 @ rs \<and> length rs = length (get_param_set grid) \<and>
           (\<forall>j < length rs.
              evaluated_run E X X_raw y ((refit E X_raw y ^^ j) pp1)
                (get_param_set grid ! j) (rs ! j))"
proof -
  from train_phase_Inr [OF assms] obtain X_raw y X wa where
    fe: "feature_engineering E train_df (fresh_process E w0) = (Inr (X_raw, y, X), wa)" and
    gs: "grid_search E X X_raw y 0 (get_param_set grid)
              (wa\<lparr>features_csv := Some (to_csv (assign (np_nan E) X ''rent'' y))\<rparr>) = (Inr (), w1)"
    by blast
  have dc: "drop_columns [''rent'', ''area_locality'', ''posted_on''] train_df = Inr X_raw"
    using feature_engineering_Inr(1) [OF fe] .
  have pp: "pp_fit_transform E (pp_unfitted E) X_raw y = Inr (preprocess_pipeline wa, X)"
    using feature_engineering_Inr(3) [OF fe] by (simp add: fresh_process_def)
  have c0: "calls wa = [FitTransform X_raw y]"
    using feature_engineering_Inr(4) [OF fe] by (simp add: fresh_process_def)
  have m0: "mlruns wa = mlruns w0"
    using feature_engineering_any [OF fe] by (simp add: fresh_process_def)
  from grid_search_Inr [OF gs] obtain rs where
    c: "calls w1 = calls wa @ concat (map (run_events X X_raw y) [0..<length (get_param_set grid)])" and
    p: "preprocess_pipeline w1 =
           (refit E X_raw y ^^ length (get_param_set grid)) (preprocess_pipeline wa)" and
    rs: "mlruns w1 = mlruns wa @ rs" "length rs = length (get_param_set grid)" and
    ev: "\<forall>j < length rs.
           evaluated_run E X X_raw y ((refit E X_raw y ^^ j) (preprocess_pipeline wa))
             (get_param_set grid ! j) (rs ! j)"
    by auto
  have c': "calls w1 = FitTransform X_raw y #
             concat (map (run_events X X_raw y) [0..<length (get_param_set grid)])"
    using c c0 by simp
  have m: "mlruns w1 = mlruns w0 @ rs" using rs(1) m0 by simp
  show ?thesis
    using dc pp c' p m rs(2) ev by blast
qed

theorem shared_pipeline_fixed_features_witness:
  "preprocess_pipeline (snd (train_phase widening_env two_depths toy_df
       (fresh_process widening_env empty_world))) = 3 \<and>
   calls (snd (train_phase widening_env two_depths toy_df (fresh_process widening_env empty_world)))
     = FitTransform toy_X toy_y #
         run_events toy_X_wide toy_X toy_y 0 @ run_events toy_X_wide toy_X toy_y 1 \<and>
   map (latest_metric ''RMSE_CV'') (mlruns (snd (train_phase widening_env two_depths toy_df
       (fresh_process widening_env empty_world)))) = [Some 2, Some 2] \<and>
   map run_charts (mlruns (snd (train_phase widening_env two_depths toy_df
       (fresh_process widening_env empty_world)))) = [[''bhk'', ''bias''], [''bhk'', ''bias'']] \<and>
   map run_model (mlruns (snd (train_phase widening_env two_depths toy_df
       (fresh_process widening_env empty_world))))
     = [Some (2, \<lparr>hyper = [(''max_depth'', PInt 3)], fitted = Some 2\<rparr>),
        Some (3, \<lparr>hyper = [(''max_depth'', PInt 4)], fitted = Some 2\<rparr>)]"
proof -
  let ?p = "train_phase widening_env two_depths toy_df (fresh_process widening_env empty_world)"
  have "fst ?p = Inr ()" by code_simp
  then have h: "?p = (Inr (), snd ?p)" by (rule fst_eqD)
  have a: "preprocess_pipeline (snd ?p) = 3" by code_simp
  have b: "calls (snd ?p)
     = FitTransform toy_X toy_y #
         run_events toy_X_wide toy_X toy_y 0 @ run_events toy_X_wide toy_X toy_y 1"
    by code_simp
  have c: "map (latest_metric ''RMSE_CV'') (mlruns (snd ?p)) = [Some 2, Some 2]" by code_simp
  have d: "map run_charts (mlruns (snd ?p)) = [[''bhk'', ''bias''], [''bhk'', ''bias'']]"
    by code_simp
  have e: "map run_model (mlruns (snd ?p))
     = [Some (2, \<lparr>hyper = [(''max_depth'', PInt 3)], fitted = Some 2\<rparr>),
        Some (3, \<lparr>hyper = [(''max_depth'', PInt 4)], fitted = Some 2\<rparr>)]"
    by code_simp
  show ?thesis
    using shared_pipeline_fixed_features [OF h] a b c d e by simp
qed

section \<open>Export of the best model\<close>

lemma search_runs_Nil: "search_runs key n [] = []"
  by (simp add: search_runs_def map_filter_simps)

lemma select_best_Inr:
  assumes "select_best w = (Inr best, w2)" and "distinct (map run_id (mlruns w))"
  shows "w2 = w \<and> best \<in> set (mlruns w) \<and>
         (\<forall>r \<in> set (mlruns w). \<forall>v. latest_metric ''RMSE_CV'' r = Some v \<longrightarrow>
            (\<exists>b. latest_metric ''RMSE_CV'' best = Some b \<and> b \<le> v))"
proof -
  have ne: "mlruns w \<noteq> []"
  proof
    assume "mlruns w = []"
    then have "select_best w = (Inl (Exception no_runs_message), w)"
      by (simp add: select_best_def search_runs_Nil)
    with assms(1) show False by simp
  qed
  from select_best_head [OF ne assms(2)] assms(1) show ?thesis by auto
qed

lemma export_Inr:
  assumes "export best w = (Inr u, w')"
  shows "\<exists>m. run_model best = Some m \<and> mlruns w' = mlruns w \<and>
           model_store w' = model_store w @
             [\<lparr>bento_name = ''house_rent'', bento_model = m,
               bento_signatures = [(''predict'', \<lparr>batchable = True, batch_dim = 0\<rparr>)],
               bento_metadata = run_params best\<rparr>]"
  using assms by (auto simp: export_def Let_def split: option.splits)

text \<open>
  C6: when the driver finishes without an exception (on a tracker whose runs have distinct
  ids), EXPORT has added one entry to the model store: it is named \<open>house_rent\<close>, holds the
  model logged by the best run (a tracked run with the least \<open>RMSE_CV\<close>), declares the one
  signature \<open>predict\<close>, batchable with batch dimension 0, and its metadata are the
  hyper-parameters logged by the best run. When the experiment was empty before and the
  grid expands to a single parameter set, the metadata are exactly that parameter set, each
  value as the string the tracker stores.
\<close>

theorem export_saves_best_model:
  assumes fin: "driver E grid train_df w0 = (Inr (), w')"
    and ids: "distinct (map run_id (mlruns w0))"
  shows "\<exists>best m.
           best \<in> set (mlruns w') \<and>
           (\<forall>r \<in> set (mlruns w'). \<forall>v. latest_metric ''RMSE_CV'' r = Some v \<longrightarrow>
              (\<exists>b. latest_metric ''RMSE_CV'' best = Some b \<and> b \<le> v)) \<and>
           run_model best = Some m \<and>
           model_store w' = model_store w0 @
             [\<lparr>bento_name = ''house_rent'', bento_model = m,
               bento_signatures = [(''predict'', \<lparr>batchable = True, batch_dim = 0\<rparr>)],
               bento_metadata = run_params best\<rparr>] \<and>
           (mlruns w0 = [] \<and> distinct (map fst grid) \<longrightarrow>
              (\<forall>p. get_param_set grid = [p] \<longrightarrow>
                 run_params best = map (\<lambda>(k, v). (k, str_of E v)) p))"
proof -
  from fin obtain u w1 best w2 where
    tp: "train_phase E grid train_df (fresh_process E w0) = (Inr u, w1)" and
    sb: "select_best w1 = (Inr best, w2)" and
    ex: "export best w2 = (Inr (), w')"
    by (auto simp: driver_def then_do_Inr)
  note any = train_phase_any [OF tp]
  have d1: "distinct (map run_id (mlruns w1))"
    using any ids by (simp add: fresh_process_def)
  from select_best_Inr [OF sb d1] have w2: "w2 = w1" and mem: "best \<in> set (mlruns w1)"
    and least: "\<forall>r \<in> set (mlruns w1). \<forall>v. latest_metric ''RMSE_CV'' r = Some v \<longrightarrow>
            (\<exists>b. latest_metric ''RMSE_CV'' best = Some b \<and> b \<le> v)"
    by simp_all
  from export_Inr [OF ex] w2 obtain m where
    m: "run_model best = Some m" "mlruns w' = mlruns w1"
       "model_store w' = model_store w1 @
             [\<lparr>bento_name = ''house_rent'', bento_model = m,
               bento_signatures = [(''predict'', \<lparr>batchable = True, batch_dim = 0\<rparr>)],
               bento_metadata = run_params best\<rparr>]"
    by auto
  have ms: "model_store w1 = model_store w0"
    using any by (simp add: fresh_process_def)
  have single: "run_params best = map (\<lambda>(k, v). (k, str_of E v)) p"
    if e: "mlruns w0 = []" and k: "distinct (map fst grid)" and p: "get_param_set grid = [p]" for p
  proof -
    have "p \<in> set (get_param_set grid)" using p by simp
    then have "map fst p = map fst grid" by (rule get_param_set_keys)
    then have dk: "\<forall>params \<in> set (get_param_set grid). distinct (map fst params)"
      using k p by simp
    from train_phase_runs [OF tp] dk p e obtain rs where
      rs: "mlruns w1 = rs" "length rs = 1"
          "map run_params rs = [map (\<lambda>(k, v). (k, str_of E v)) p]"
      by (auto simp: fresh_process_def)
    then obtain run where "rs = [run]" by (cases rs) auto
    with rs mem show ?thesis by simp
  qed
  show ?thesis
    using mem least m ms single by (intro exI [of _ best] exI [of _ m]) simp
qed

theorem export_saves_best_model_witness:
  "model_store (snd (driver toy_env params_candidates toy_df empty_world)) =
     [\<lparr>bento_name = ''house_rent'',
       bento_model = (2, \<lparr>hyper = [(''learning_rate'', PFloat ''0.01''), (''max_depth'', PInt 3),
                                  (''max_features'', PFloat ''1.0'')], fitted = Some 2\<rparr>),
       bento_signatures = [(''predict'', \<lparr>batchable = True, batch_dim = 0\<rparr>)],
       bento_metadata = [(''learning_rate'', ''0.01''), (''max_depth'', ''3''),
                         (''max_features'', ''1.0'')]\<rparr>]"
proof -
  let ?d = "driver toy_env params_candidates toy_df empty_world"
  have "fst ?d = Inr ()" by code_simp
  then have h1: "?d = (Inr (), snd ?d)" by (rule fst_eqD)
  have h2: "distinct (map run_id (mlruns empty_world))" by (simp add: empty_world_def)
  have v: "model_store (snd ?d) =
     [\<lparr>bento_name = ''house_rent'',
       bento_model = (2, \<lparr>hyper = [(''learning_rate'', PFloat ''0.01''), (''max_depth'', PInt 3),
                                  (''max_features'', PFloat ''1.0'')], fitted = Some 2\<rparr>),
       bento_signatures = [(''predict'', \<lparr>batchable = True, batch_dim = 0\<rparr>)],
       bento_metadata = [(''learning_rate'', ''0.01''), (''max_depth'', ''3''),
                         (''max_features'', ''1.0'')]\<rparr>]"
    by code_simp
  show ?thesis
    using export_saves_best_model [OF h1 h2] v by simp
qed

section \<open>A failing chart logger\<close>

lemma grid_search_append_Inr:
  assumes "grid_search E X X_raw y i ps w = (Inr u, wi)"
  shows "grid_search E X X_raw y i (ps @ qs) w = grid_search E X X_raw y (i + length ps) qs wi"
  using assms
proof (induction ps arbitrary: i w)
  case Nil
  then show ?case by (simp add: ok_def)
next
  case (Cons p ps)
  from Cons.prems obtain u1 w1 where
    s1: "with_run (''Run '' @ str_nat i) (run_body E X X_raw y i p) w = (Inr u1, w1)" and
    s2: "grid_search E X X_raw y (Suc i) ps w1 = (Inr u, wi)"
    by (auto simp: then_do_Inr)
  have "grid_search E X X_raw y i ((p # ps) @ qs) w = grid_search E X X_raw y (Suc i) (ps @ qs) w1"
    using s1 by (simp add: then_do_def)
  also have "\<dots> = grid_search E X X_raw y (Suc i + length ps) qs wi"
    using Cons.IH [OF s2] .
  finally show ?case by simp
qed

lemma chart_failure_in_run:
  assumes fit: "fit_evaluate_log E X X_raw y i params (start_run name w) = (Inr regr, wb)"
    and chart: "fst (feature_importance_chart E X (heap wb ! regr)) = Inl e"
  shows "\<exists>w' run. with_run name (run_body E X X_raw y i params) w = (Inl e, w') \<and>
           mlruns w' = mlruns w @ [run] \<and> run_status run = FAILED"
proof -
  have a0: "active_run (start_run name w) = Some
         \<lparr>run_id = fresh_id (mlruns w), run_name = name, run_status = RUNNING,
          run_tags = [], run_params = [], run_metrics = [], run_model = None,
          run_artifacts = [], run_charts = []\<rparr>"
    by (simp add: start_run_def)
  from fit_evaluate_log_any [OF fit] a0 obtain r1 where r1: "active_run wb = Some r1"
    by auto
  have m: "mlruns wb = mlruns w"
    using fit_evaluate_log_effect [OF fit] by (simp add: start_run_def)
  obtain r wc where lc: "log_feature_importance E i X regr wb = (r, wc)"
    by (cases "log_feature_importance E i X regr wb")
  note l = log_feature_importance_any [OF lc]
  have r: "r = Inl e" using l chart by simp
  from l r1 obtain r2 where r2: "active_run wc = Some r2" by auto
  have body: "run_body E X X_raw y i params (start_run name w) = (Inl e, wc)"
    using fit lc r by (simp add: run_body_def then_do_def)
  have "with_run name (run_body E X X_raw y i params) w = (Inl e, end_run FAILED wc)"
    using body by (simp add: with_run_def)
  moreover have "mlruns (end_run FAILED wc) = mlruns wc @ [r2\<lparr>run_status := FAILED\<rparr>]"
    using r2 by (simp add: end_run_def)
  moreover have "mlruns wc = mlruns w" using l m by simp
  ultimately show ?thesis by force
qed

text \<open>
  C8 as stated does not hold: with a chart logger that raises and a grid of two parameter
  sets, the driver aborts with the logger's exception, the first run is closed as FAILED,
  the second run never starts and nothing is exported.
\<close>

theorem chart_failure_counterexample:
  "fst (driver chart_fails_env two_depths toy_df empty_world) = Inl (LibraryError ''chart'') \<and>
   map run_status (mlruns (snd (driver chart_fails_env two_depths toy_df empty_world))) = [FAILED] \<and>
   length (get_param_set two_depths) = 2 \<and>
   model_store (snd (driver chart_fails_env two_depths toy_df empty_world)) = []"
  by code_simp

text \<open>
  C8, amended: the driver does not catch an exception of the feature-importance chart
  logger. When the logger raises in a run (after any number of earlier runs that finished),
  that run is closed as FAILED, no later parameter set is run, best-run selection and
  export do not execute, and the driver ends with that exception and a non-zero exit code;
  the runs finished earlier stay tracked and the model store is unchanged.
\<close>

theorem chart_failure_aborts:
  assumes fe: "feature_engineering E train_df (fresh_process E w0) = (Inr (X_raw, y, X), wa)"
    and grid: "get_param_set grid = earlier @ params # rest"
    and before: "grid_search E X X_raw y 0 earlier
                   (wa\<lparr>features_csv := Some (to_csv (assign (np_nan E) X ''rent'' y))\<rparr>) = (Inr (), wi)"
    and fit: "fit_evaluate_log E X X_raw y (length earlier) params
                (start_run (''Run '' @ str_nat (length earlier)) wi) = (Inr regr, wb)"
    and chart: "fst (feature_importance_chart E X (heap wb ! regr)) = Inl e"
  shows "\<exists>w' run.
           driver E grid train_df w0 = (Inl e, w') \<and>
           exit_code (driver E grid train_df w0) = 1 \<and>
           mlruns w' = mlruns wi @ [run] \<and> run_status run = FAILED \<and>
           length (mlruns w') = length (mlruns w0) + length earlier + 1 \<and>
           model_store w' = model_store w0"
proof -
  let ?wp = "wa\<lparr>features_csv := Some (to_csv (assign (np_nan E) X ''rent'' y))\<rparr>"
  from chart_failure_in_run [OF fit chart] obtain w' run where
    wr: "with_run (''Run '' @ str_nat (length earlier)) (run_body E X X_raw y (length earlier) params) wi
           = (Inl e, w')" and
    run: "mlruns w' = mlruns wi @ [run]" "run_status run = FAILED"
    by blast
  have "grid_search E X X_raw y 0 (earlier @ params # rest) ?wp
          = grid_search E X X_raw y (0 + length earlier) (params # rest) wi"
    using before by (rule grid_search_append_Inr)
  also have "\<dots> = (Inl e, w')"
    using wr by (simp add: then_do_def)
  finally have gs: "grid_search E X X_raw y 0 (get_param_set grid) ?wp = (Inl e, w')"
    using grid by simp
  have tp: "train_phase E grid train_df (fresh_process E w0) = (Inl e, w')"
    using fe gs by (simp add: train_phase_def then_do_def persist_features_def modify_def)
  have d: "driver E grid train_df w0 = (Inl e, w')"
    using tp by (simp add: driver_def then_do_def)
  have len: "length (mlruns wi) = length (mlruns w0) + length earlier"
    using grid_search_Inr [OF before] feature_engineering_any [OF fe]
    by (auto simp: fresh_process_def)
  have fr: "model_store w' = model_store w0"
    using train_phase_any [OF tp] by (simp add: fresh_process_def)
  show ?thesis
    using d run len fr by (simp add: exit_code_def)
qed

theorem chart_failure_aborts_witness:
  "fst (driver chart_fails_at_4_env three_depths toy_df empty_world) = Inl (LibraryError ''chart'') \<and>
   exit_code (driver chart_fails_at_4_env three_depths toy_df empty_world) = 1 \<and>
   length (get_param_set three_depths) = 3 \<and>
   map run_status (mlruns (snd (driver chart_fails_at_4_env three_depths toy_df empty_world)))
     = [FINISHED, FAILED] \<and>
   model_store (snd (driver chart_fails_at_4_env three_depths toy_df empty_world)) = []"
proof -
  let ?E = "chart_fails_at_4_env"
  let ?fe = "feature_engineering ?E toy_df (fresh_process ?E empty_world)"
  let ?wp = "(snd ?fe)\<lparr>features_csv := Some (to_csv (assign (np_nan ?E) toy_X ''rent'' toy_y))\<rparr>"
  let ?gs = "grid_search ?E toy_X toy_X toy_y 0 [[(''max_depth'', PInt 3)]] ?wp"
  let ?fit = "fit_evaluate_log ?E toy_X toy_X toy_y (length [[(''max_depth'', PInt 3)]])
                [(''max_depth'', PInt 4)]
                (start_run (''Run '' @ str_nat (length [[(''max_depth'', PInt 3)]])) (snd ?gs))"
  have "fst ?fe = Inr (toy_X, toy_y, toy_X)" by code_simp
  then have h1: "?fe = (Inr (toy_X, toy_y, toy_X), snd ?fe)" by (rule fst_eqD)
  have h2: "get_param_set three_depths
      = [[(''max_depth'', PInt 3)]] @ [(''max_depth'', PInt 4)] # [[(''max_depth'', PInt 5)]]"
    by (simp add: get_param_set_def three_depths_def)
  have "fst ?gs = Inr ()" by code_simp
  then have h3: "?gs = (Inr (), snd ?gs)" by (rule fst_eqD)
  have "fst ?fit = Inr 2" by code_simp
  then have h4: "?fit = (Inr 2, snd ?fit)" by (rule fst_eqD)
  have h5: "fst (feature_importance_chart ?E toy_X (heap (snd ?fit) ! 2)) = Inl (LibraryError ''chart'')"
    by code_simp
  have st: "map run_status (mlruns (snd (driver ?E three_depths toy_df empty_world)))
     = [FINISHED, FAILED]"
    by code_simp
  have n: "length (get_param_set three_depths) = 3"
    by (simp add: get_param_set_def three_depths_def)
  have e: "model_store empty_world = []" by (simp add: empty_world_def)
  from chart_failure_aborts [OF h1 h2 h3 h4 h5] st n e show ?thesis by auto
qed

end
